theory Spec2Isabelle
  imports Main
begin

section \<open>Strings\<close>

text \<open>
  A Python \<open>str\<close> is modelled as a \<open>string\<close>: one \<open>char\<close> stands for one code
  point, so \<open>length\<close> is Python's \<open>len\<close> and \<open>take\<close>/\<open>drop\<close> are slices. The
  model covers the code points below 256.
\<close>

definition nl :: char where
  "nl = CHR 0x0A"

text \<open>\<open>text.split('\n')\<close>: always at least one piece; the pieces hold no newline.\<close>

fun split_nl :: "string \<Rightarrow> string list" where
  "split_nl [] = [[]]"
| "split_nl (c # cs) =
     (if c = nl then [] # split_nl cs
      else (case split_nl cs of [] \<Rightarrow> [[c]] | l # ls \<Rightarrow> (c # l) # ls))"

text \<open>\<open>'\n'.join(lines)\<close>.\<close>

fun join_nl :: "string list \<Rightarrow> string" where
  "join_nl [] = []"
| "join_nl [l] = l"
| "join_nl (l # m # ls) = l @ nl # join_nl (m # ls)"

text \<open>
  \<open>str.isspace\<close> on the code points below 256: tab to carriage return, the four
  separators 0x1C to 0x1F, the space, NEL and the no-break space.
\<close>

definition is_space :: "char \<Rightarrow> bool" where
  "is_space c =
     (let n = (of_char c :: nat)
      in (9 \<le> n \<and> n \<le> 13) \<or> (28 \<le> n \<and> n \<le> 32) \<or> n = 133 \<or> n = 160)"

text \<open>\<open>s.strip()\<close>: whitespace removed at both ends.\<close>

definition strip :: "string \<Rightarrow> string" where
  "strip s = rev (dropWhile is_space (rev (dropWhile is_space s)))"

definition fence :: string where
  "fence = ''```''"

text \<open>\<open>line.startswith('```')\<close>.\<close>

definition startswith_fence :: "string \<Rightarrow> bool" where
  "startswith_fence line = (take 3 line = fence)"

section \<open>Code-fence formatter: \<open>render_markdown_with_code\<close>\<close>

text \<open>The three locals of the loop: \<open>in_code_block\<close>, \<open>code_lines\<close>, \<open>output\<close>.\<close>

record fence_state =
  in_code_block :: bool
  code_lines :: "string list"
  outputs :: "string list"

definition fence_init :: fence_state where
  "fence_init = \<lparr>in_code_block = False, code_lines = [], outputs = []\<rparr>"

text \<open>
  The block appended to \<open>output\<close> when a fence closes. The language is read from
  the first buffered line, whether that line came from the opening marker or from the
  body: \<open>language = code_lines[0].strip() if code_lines and code_lines[0] else ''\<close>.
\<close>

definition close_block :: "string list \<Rightarrow> string" where
  "close_block cl =
     (let code = join_nl cl;
          language = (if cl \<noteq> [] \<and> hd cl \<noteq> [] then strip (hd cl) else [])
      in if language \<noteq> [] \<and> CHR '' '' \<notin> set language
         then fence @ language @ [nl] @ join_nl (tl cl) @ [nl] @ fence
         else fence @ [nl] @ code @ [nl] @ fence)"

text \<open>One iteration of \<open>for line in text.split('\n')\<close>.\<close>

definition fence_step :: "fence_state \<Rightarrow> string \<Rightarrow> fence_state" where
  "fence_step s line =
     (if startswith_fence line then
        (if in_code_block s
         then s\<lparr>outputs := outputs s @ [close_block (code_lines s)],
                code_lines := [], in_code_block := False\<rparr>
         else (let language = strip (drop 3 line)
               in s\<lparr>in_code_block := True,
                    code_lines := (if language \<noteq> [] then code_lines s @ [language]
                                   else code_lines s)\<rparr>))
      else if in_code_block s then s\<lparr>code_lines := code_lines s @ [line]\<rparr>
      else s\<lparr>outputs := outputs s @ [line]\<rparr>)"

definition scan_lines :: "string list \<Rightarrow> fence_state" where
  "scan_lines ls = foldl fence_step fence_init ls"

definition render_markdown_with_code :: "string \<Rightarrow> string" where
  "render_markdown_with_code text = join_nl (outputs (scan_lines (split_nl text)))"

section \<open>Data model\<close>

text \<open>
  A message is a dict with the keys \<open>role\<close> and \<open>content\<close>; only assistant messages
  carry \<open>formatted\<close> (\<open>None\<close>: the key is absent).
\<close>

record message =
  role :: string
  content :: string
  formatted :: "bool option"

text \<open>An element of \<open>chat_history\<close>, and the descriptor stored in \<open>to_stream\<close>.\<close>

record chat_obj =
  name :: string
  messages :: "message list"
  timestamp :: string
  model :: string

record request =
  model :: string
  messages :: "message list"

text \<open>
  \<open>st.session_state\<close> after the initialisation block: every key is present, and
  \<open>user_id\<close> was drawn once by the first call of \<open>get_user_history_file\<close>.
\<close>

record session_state =
  user_id :: string
  chat_history :: "chat_obj list"
  messages :: "message list"
  current_idx :: "nat option"
  to_stream :: "request option"
  stop_requested :: bool
  system_prompt :: string
  file_text :: "string option"

section \<open>History store\<close>

text \<open>
  The exceptions that the modelled code can meet. \<open>BeyondModel\<close> is no exception of
  Python: it marks a run that the model of the standard library below does not follow
  (a number in the file, a code point from 256 on, a value that is no history).
\<close>

datatype exn =
  JSONDecodeError | FileNotFoundError | PermissionError | UnicodeDecodeError | IndexError
  | BeyondModel

text \<open>
  The history directory, created at start-up: a path either names no file or a file with
  its permissions and bytes.
\<close>

record history_file =
  readable :: bool
  writable :: bool
  data :: string

type_synonym filesystem = "string \<rightharpoonup> history_file"

definition HISTORY_DIR :: string where
  "HISTORY_DIR = ''chat_histories''"

definition get_user_history_file :: "session_state \<Rightarrow> string" where
  "get_user_history_file s = HISTORY_DIR @ ''/'' @ user_id s @ ''.json''"


text \<open>
  \<open>save_history\<close>: \<open>open(path, "w")\<close> creates the file or truncates it, and raises
  when the file exists and may not be written to.
\<close>

definition save_history ::
  "(chat_obj list \<Rightarrow> string) \<Rightarrow> filesystem \<Rightarrow> session_state \<Rightarrow> chat_obj list
     \<Rightarrow> exn + filesystem"
where
  "save_history json_dump fs s h =
     (case fs (get_user_history_file s) of
        None \<Rightarrow>
          Inr (fs(get_user_history_file s \<mapsto>
                 \<lparr>readable = True, writable = True, data = json_dump h\<rparr>))
      | Some f \<Rightarrow>
          (if writable f
           then Inr (fs(get_user_history_file s \<mapsto> f\<lparr>data := json_dump h\<rparr>))
           else Inl PermissionError))"

section \<open>The standard library: \<open>json\<close> and the UTF-8 file\<close>

text \<open>
  A model of the part of the Python standard library that \<open>load_history\<close> and
  \<open>save_history\<close> call: \<open>json.dump(h, f, indent=2, ensure_ascii=False)\<close>,
  \<open>json.load(f)\<close> and the text file opened with \<open>encoding="utf-8"\<close>. A string of the
  model holds code points below 256, and the values are those that make up a history:
  \<open>null\<close>, booleans, strings, lists and dicts with string keys (a dict as the list of
  its items, in insertion order).
\<close>

datatype json =
  JNull | JBool bool | JString string | JArray "json list" | JObject "(string \<times> json) list"

definition dq :: char where "dq = CHR 0x22"

definition backslash :: char where "backslash = CHR 0x5C"

text \<open>
  \<open>json.encoder.encode_basestring\<close> (the encoder of \<open>ensure_ascii=False\<close>): the
  backslash, the double quote and the code points below 32 are escaped, the latter as
  \<open>\b \f \n \r \t\<close> or \<open>\u00XX\<close> with lower-case digits; everything else is kept.
\<close>

definition hex_digit :: "nat \<Rightarrow> char" where
  "hex_digit d = (if d < 10 then char_of (48 + d) else char_of (87 + d))"

definition escape_char :: "char \<Rightarrow> string" where
  "escape_char c =
     (if c = backslash then [backslash, backslash]
      else if c = dq then [backslash, dq]
      else if c = CHR 0x08 then [backslash, CHR ''b'']
      else if c = CHR 0x0C then [backslash, CHR ''f'']
      else if c = CHR 0x0A then [backslash, CHR ''n'']
      else if c = CHR 0x0D then [backslash, CHR ''r'']
      else if c = CHR 0x09 then [backslash, CHR ''t'']
      else if (of_char c :: nat) < 32
        then [backslash, CHR ''u'', CHR ''0'', CHR ''0'',
              hex_digit ((of_char c :: nat) div 16), hex_digit ((of_char c :: nat) mod 16)]
      else [c])"

definition encode_basestring :: "string \<Rightarrow> string" where
  "encode_basestring s = dq # concat (map escape_char s) @ [dq]"

text \<open>
  The encoder with \<open>indent=2\<close>: an empty list is \<open>[]\<close> and an empty dict \<open>{}\<close>;
  otherwise every item stands on a line of its own, indented by two spaces per level,
  the items separated by \<open>,\<close> and a key from its value by \<open>: \<close>.
\<close>

definition newline_indent :: "nat \<Rightarrow> string" where
  "newline_indent level = nl # replicate (2 * level) CHR '' ''"

fun dumps :: "nat \<Rightarrow> json \<Rightarrow> string"
  and dump_items :: "nat \<Rightarrow> json list \<Rightarrow> string"
  and dump_members :: "nat \<Rightarrow> (string \<times> json) list \<Rightarrow> string"
where
  "dumps level JNull = ''null''"
| "dumps level (JBool b) = (if b then ''true'' else ''false'')"
| "dumps level (JString s) = encode_basestring s"
| "dumps level (JArray xs) =
     (if xs = [] then ''[]''
      else ''['' @ newline_indent (Suc level) @ dump_items (Suc level) xs
           @ newline_indent level @ '']'')"
| "dumps level (JObject ps) =
     (if ps = [] then ''{}''
      else ''{'' @ newline_indent (Suc level) @ dump_members (Suc level) ps
           @ newline_indent level @ ''}'')"
| "dump_items level [] = []"
| "dump_items level [x] = dumps level x"
| "dump_items level (x # y # ys) =
     dumps level x @ '','' @ newline_indent level @ dump_items level (y # ys)"
| "dump_members level [] = []"
| "dump_members level [(k, v)] = encode_basestring k @ '': '' @ dumps level v"
| "dump_members level ((k, v) # q # qs) =
     encode_basestring k @ '': '' @ dumps level v @ '','' @ newline_indent level
       @ dump_members level (q # qs)"

text \<open>
  The decoder. \<open>json.decoder.WHITESPACE\<close> is \<open>[ \t\n\r]*\<close>.
\<close>

definition is_json_ws :: "char \<Rightarrow> bool" where
  "is_json_ws c = (c = CHR '' '' \<or> c = CHR 0x09 \<or> c = CHR 0x0A \<or> c = CHR 0x0D)"

definition skip_ws :: "string \<Rightarrow> string" where
  "skip_ws s = dropWhile is_json_ws s"









text \<open>
  The UTF-8 codec on code points below 256: one byte below 128, two bytes from 128 on.
  Decoding is strict, as \<open>open(..., encoding="utf-8")\<close> is: a byte that cannot start a
  sequence (128 to 193, 245 to 255) and a lead byte without its continuation byte raise
  \<open>UnicodeDecodeError\<close>. The lead bytes 196 to 244 start a code point from 256 on:
  \<open>BeyondModel\<close>. (Reading in text mode also turns \<open>\r\n\<close> and \<open>\r\<close> into
  \<open>\n\<close>; the decoder treats the three alike, and the encoder writes no \<open>\r\<close>, so
  this step is left out.)
\<close>

definition utf8_encode_char :: "char \<Rightarrow> string" where
  "utf8_encode_char c =
     (if (of_char c :: nat) < 128 then [c]
      else [char_of (192 + (of_char c :: nat) div 64), char_of (128 + (of_char c :: nat) mod 64)])"

definition utf8_encode :: "string \<Rightarrow> string" where
  "utf8_encode s = concat (map utf8_encode_char s)"


text \<open>
  The history as a value of Python: a list of dicts with the keys \<open>name\<close>,
  \<open>messages\<close>, \<open>timestamp\<close>, \<open>model\<close> in the order in which the streaming branch
  builds them; a message is a dict with the keys \<open>role\<close>, \<open>content\<close> and, on an
  assistant message, \<open>formatted\<close>.
\<close>

definition message_json :: "message \<Rightarrow> json" where
  "message_json m =
     JObject ([(''role'', JString (role m)), (''content'', JString (content m))]
              @ (case formatted m of None \<Rightarrow> [] | Some b \<Rightarrow> [(''formatted'', JBool b)]))"

definition chat_json :: "chat_obj \<Rightarrow> json" where
  "chat_json c =
     JObject [(''name'', JString (name c)),
              (''messages'', JArray (map message_json (chat_obj.messages c))),
              (''timestamp'', JString (timestamp c)),
              (''model'', JString (chat_obj.model c))]"

definition history_json :: "chat_obj list \<Rightarrow> json" where
  "history_json h = JArray (map chat_json h)"




text \<open>
  \<open>json.dump(h, f, indent=2, ensure_ascii=False)\<close> on a file opened with
  \<open>encoding="utf-8"\<close>: the bytes written. \<open>json.load(f)\<close> on such a file: the bytes are
  decoded, the text is parsed.
\<close>

definition py_json_dump :: "chat_obj list \<Rightarrow> string" where
  "py_json_dump h = utf8_encode (dumps 0 (history_json h))"


section \<open>Session handlers\<close>

text \<open>
  The Delete button of the record at \<open>orig_i\<close> (the button exists only for the indices
  of the list; \<open>pop\<close> raises beyond them).
\<close>

definition delete_chat ::
  "(chat_obj list \<Rightarrow> string) \<Rightarrow> nat \<Rightarrow> filesystem \<times> session_state
     \<Rightarrow> exn + filesystem \<times> session_state"
where
  "delete_chat json_dump orig_i st =
     (let fs = fst st; s = snd st in
      if orig_i < length (chat_history s) then
        (let s1 = s\<lparr>chat_history := take orig_i (chat_history s) @ drop (Suc orig_i) (chat_history s)\<rparr>
         in case save_history json_dump fs s1 (chat_history s1) of
              Inl e \<Rightarrow> Inl e
            | Inr fs' \<Rightarrow>
                Inr (fs', if current_idx s1 = Some orig_i
                          then s1\<lparr>session_state.messages := [], current_idx := None\<rparr>
                          else s1))
      else Inl IndexError)"

text \<open>The Load button of the record at \<open>orig_i\<close>.\<close>

definition load_chat :: "nat \<Rightarrow> session_state \<Rightarrow> exn + session_state" where
  "load_chat orig_i s =
     (if orig_i < length (chat_history s)
      then Inr (s\<lparr>session_state.messages := chat_obj.messages (chat_history s ! orig_i),
                  current_idx := Some orig_i, to_stream := None, stop_requested := False\<rparr>)
      else Inl IndexError)"

text \<open>
  The input branch, taken when \<open>to_stream\<close> is \<open>None\<close>: a non-empty input is
  queued for streaming. \<open>selected_model\<close> is the model chosen in the sidebar.
\<close>

definition with_file_context :: "string option \<Rightarrow> string \<Rightarrow> string" where
  "with_file_context ft user_input =
     (case ft of
        None \<Rightarrow> user_input
      | Some t \<Rightarrow>
          (if t \<noteq> []
           then ''File context:'' @ [nl] @ t @ [nl, nl] @ ''---'' @ [nl, nl] @ user_input
           else user_input))"

definition submit :: "string \<Rightarrow> string \<Rightarrow> session_state \<Rightarrow> session_state" where
  "submit selected_model user_input s =
     (if to_stream s = None \<and> user_input \<noteq> [] then
        (let text = with_file_context (file_text s) user_input;
             s1 = (if file_text s \<noteq> None \<and> file_text s \<noteq> Some []
                   then s\<lparr>file_text := None\<rparr> else s);
             s2 = s1\<lparr>session_state.messages := session_state.messages s1 @
                       [\<lparr>role = ''user'', content = text, formatted = None\<rparr>]\<rparr>;
             messages_for_api =
               \<lparr>role = ''system'', content = system_prompt s2, formatted = None\<rparr>
                 # session_state.messages s2
         in s2\<lparr>to_stream := Some \<lparr>request.model = selected_model,
                                   request.messages = messages_for_api\<rparr>,
               stop_requested := False\<rparr>)
      else s)"

section \<open>Streaming controller\<close>

text \<open>
  A chunk of the stream: \<open>chunk.get("message", {}).get("content", "")\<close> reads the
  delta, so either key may be missing.
\<close>

type_synonym chunk = "string option option"

fun delta :: "chunk \<Rightarrow> string" where
  "delta None = []"
| "delta (Some None) = []"
| "delta (Some (Some c)) = c"

text \<open>
  What the iterator of \<open>chat(...)\<close> does when the loop asks for the next chunk: it
  yields a chunk or raises (with the text of the exception). The end of the list is the
  end of the stream.
\<close>

datatype stream_event = Yield chunk | Raise string

text \<open>
  The \<open>for chunk in chat(...)\<close> loop inside \<open>try\<close>. The first argument is the flag
  \<open>stop_requested\<close>, the second \<open>full_response\<close>. The flag does not change while
  the loop runs: its only write of \<open>True\<close> is the Stop button, which is evaluated before
  the loop and ends the run with \<open>st.rerun()\<close>. The result is \<open>full_response\<close>
  after the loop and the events the loop never asked for: a chunk is fetched first and the
  flag read next, so with the flag set the first chunk is fetched and dropped.
\<close>

fun stream_loop :: "bool \<Rightarrow> string \<Rightarrow> stream_event list \<Rightarrow> string \<times> stream_event list" where
  "stream_loop stop full_response [] = (full_response, [])"
| "stream_loop stop full_response (Raise e # es) = (''**Error:** '' @ e, es)"
| "stream_loop stop full_response (Yield c # es) =
     (if stop then (full_response, es)
      else stream_loop stop (full_response @ delta c) es)"


text \<open>\<open>next((m["content"] for m in messages if m["role"] == "user"), "Chat")\<close>.\<close>

definition first_user :: "message list \<Rightarrow> string" where
  "first_user ms =
     (case filter (\<lambda>m. role m = ''user'') ms of [] \<Rightarrow> ''Chat'' | m # _ \<Rightarrow> content m)"

text \<open>\<open>first_user[:30] + "..." if len(first_user) > 30 else first_user\<close>.\<close>

definition title_of :: "string \<Rightarrow> string" where
  "title_of fu = (if length fu > 30 then take 30 fu @ ''...'' else fu)"

text \<open>
  The block "Save to history": a new record is appended when no conversation is
  active, otherwise the record at \<open>current_idx\<close> is rebuilt from itself with three
  keys replaced. Indexing beyond the list raises.
\<close>

definition save_to_history :: "string \<Rightarrow> string \<Rightarrow> session_state \<Rightarrow> exn + session_state" where
  "save_to_history selected_model now s =
     (case current_idx s of
        None \<Rightarrow>
          (let h = chat_history s @
                 [\<lparr>name = title_of (first_user (session_state.messages s)),
                   chat_obj.messages = session_state.messages s,
                   timestamp = now, chat_obj.model = selected_model\<rparr>]
           in Inr (s\<lparr>chat_history := h, current_idx := Some (length h - 1)\<rparr>))
      | Some i \<Rightarrow>
          (if i < length (chat_history s)
           then Inr (s\<lparr>chat_history := (chat_history s)
                       [i := (chat_history s ! i)\<lparr>chat_obj.messages := session_state.messages s,
                                                  timestamp := now,
                                                  chat_obj.model := selected_model\<rparr>]\<rparr>)
           else Inl IndexError))"

text \<open>
  Everything after the loop: the final rendering, the assistant message, the history
  record, the write, and the reset of the streaming state. \<open>now\<close> is the formatted
  time of the clock.
\<close>

definition finalize ::
  "(chat_obj list \<Rightarrow> string) \<Rightarrow> string \<Rightarrow> string \<Rightarrow> string \<Rightarrow> filesystem \<times> session_state
     \<Rightarrow> exn + filesystem \<times> session_state"
where
  "finalize json_dump selected_model now full_response st =
     (let fs = fst st; s = snd st;
          formatted_response = render_markdown_with_code full_response;
          s1 = s\<lparr>session_state.messages := session_state.messages s @
                    [\<lparr>role = ''assistant'', content = formatted_response,
                      formatted = Some True\<rparr>]\<rparr>
      in case save_to_history selected_model now s1 of
           Inl e \<Rightarrow> Inl e
         | Inr s2 \<Rightarrow>
             (case save_history json_dump fs s2 (chat_history s2) of
                Inl e \<Rightarrow> Inl e
              | Inr fs' \<Rightarrow> Inr (fs', s2\<lparr>to_stream := None, stop_requested := False\<rparr>)))"

text \<open>
  The streaming branch, taken when \<open>to_stream\<close> holds a request: the loop, then
  \<open>finalize\<close>. With no request queued the branch is not taken.
\<close>

definition stream_turn ::
  "(chat_obj list \<Rightarrow> string) \<Rightarrow> string \<Rightarrow> string \<Rightarrow> stream_event list
     \<Rightarrow> filesystem \<times> session_state \<Rightarrow> exn + filesystem \<times> session_state"
where
  "stream_turn json_dump selected_model now events st =
     (case to_stream (snd st) of
        None \<Rightarrow> Inr st
      | Some req \<Rightarrow>
          finalize json_dump selected_model now
            (fst (stream_loop (stop_requested (snd st)) [] events)) st)"

section \<open>Well-formed text and the invariant of the scan\<close>

text \<open>
  The trailing text of an opening line that contains a space and itself starts with the
  marker. \<open>tags_ok inside ls\<close>: no line of \<open>ls\<close> that opens a fence has such
  trailing text (\<open>inside\<close> tells whether the scan is inside a fence before \<open>ls\<close>).
\<close>

definition bad_tag :: "string \<Rightarrow> bool" where
  "bad_tag tag = (CHR '' '' \<in> set tag \<and> startswith_fence tag)"

fun tags_ok :: "bool \<Rightarrow> string list \<Rightarrow> bool" where
  "tags_ok inside [] = True"
| "tags_ok inside (l # ls) =
     (if startswith_fence l
      then (if inside then tags_ok False ls
            else \<not> bad_tag (strip (drop 3 l)) \<and> tags_ok True ls)
      else tags_ok inside ls)"

text \<open>
  A text is a well-formed sequence of plain lines and fences when every fence is closed
  again (the scan of its lines ends outside a fence) and properly opened (the text behind
  an opening marker is not a second marker followed by text with a space).
\<close>

definition well_formed :: "string \<Rightarrow> bool" where
  "well_formed t =
     (\<not> in_code_block (scan_lines (split_nl t)) \<and> tags_ok False (split_nl t))"

text \<open>
  The invariant of the scan used for idempotence. A piece of output \<open>reparses\<close> when
  scanning its lines outside a fence appends the piece itself and nothing else;
  \<open>buffer_ok\<close> describes the buffered lines of an open fence; \<open>scan_ok\<close> puts both
  together.
\<close>

definition reparses :: "string \<Rightarrow> bool" where
  "reparses blk =
     (\<forall>s. \<not> in_code_block s \<and> code_lines s = [] \<longrightarrow>
          foldl fence_step s (split_nl blk) = s\<lparr>outputs := outputs s @ [blk]\<rparr>)"

definition buffer_ok :: "string list \<Rightarrow> bool" where
  "buffer_ok cl =
     ((\<forall>l \<in> set cl. nl \<notin> set l)
      \<and> (\<forall>l \<in> set (tl cl). \<not> startswith_fence l)
      \<and> (cl \<noteq> [] \<and> startswith_fence (hd cl) \<longrightarrow>
            CHR '' '' \<notin> set (hd cl) \<and> strip (hd cl) = hd cl \<and> hd cl \<noteq> []))"

definition scan_ok :: "fence_state \<Rightarrow> bool" where
  "scan_ok s =
     ((\<forall>blk \<in> set (outputs s). reparses blk)
      \<and> (if in_code_block s then buffer_ok (code_lines s) else code_lines s = []))"

section \<open>Vocabulary of the statements\<close>

text \<open>The history file of the session can be opened for writing: it is absent or writable.\<close>

definition can_write :: "filesystem \<Rightarrow> session_state \<Rightarrow> bool" where
  "can_write fs s = (case fs (get_user_history_file s) of None \<Rightarrow> True | Some f \<Rightarrow> writable f)"

text \<open>The file system after a successful \<open>save_history\<close> of \<open>h\<close>.\<close>

definition written :: "(chat_obj list \<Rightarrow> string) \<Rightarrow> filesystem \<Rightarrow> session_state \<Rightarrow> chat_obj list \<Rightarrow> filesystem" where
  "written json_dump fs s h =
     fs(get_user_history_file s \<mapsto>
        (case fs (get_user_history_file s) of
           None \<Rightarrow> \<lparr>readable = True, writable = True, data = json_dump h\<rparr>
         | Some f \<Rightarrow> f\<lparr>data := json_dump h\<rparr>))"

text \<open>The message that the final rendering appends for a given \<open>full_response\<close>.\<close>

definition assistant_message :: "string \<Rightarrow> message" where
  "assistant_message full_response =
     \<lparr>role = ''assistant'', content = render_markdown_with_code full_response, formatted = Some True\<rparr>"

text \<open>\<open>current_idx\<close> is \<open>None\<close> or an index of \<open>chat_history\<close>.\<close>

definition index_in_range :: "session_state \<Rightarrow> bool" where
  "index_in_range s =
     (case current_idx s of None \<Rightarrow> True | Some i \<Rightarrow> i < length (chat_history s))"

text \<open>
  The session state built by the initialisation block, for a user identifier and the
  history that \<open>load_history\<close> returned.
\<close>

definition init_session :: "string \<Rightarrow> chat_obj list \<Rightarrow> session_state" where
  "init_session uid h =
     \<lparr>user_id = uid, chat_history = h, session_state.messages = [], current_idx = None,
      to_stream = None, stop_requested = False,
      system_prompt = ''You are a helpful AI assistant.'', file_text = None\<rparr>"







text \<open>Example data for the concrete instances below.\<close>

abbreviation (input) example_dump :: "chat_obj list \<Rightarrow> string" where
  "example_dump \<equiv> (\<lambda>h. concat (map name h))"

abbreviation (input) example_record :: chat_obj where
  "example_record \<equiv>
     \<lparr>name = ''hi'',
      chat_obj.messages = [\<lparr>role = ''user'', content = ''hi'', formatted = None\<rparr>,
                           \<lparr>role = ''assistant'', content = ''Hello'', formatted = Some True\<rparr>],
      timestamp = ''2025-01-01 10:00'', chat_obj.model = ''m''\<rparr>"

abbreviation (input) example_loaded :: session_state where
  "example_loaded \<equiv>
     (init_session ''u'' [example_record])
       \<lparr>session_state.messages := chat_obj.messages example_record, current_idx := Some 0\<rparr>"

section \<open>Properties of the formatter\<close>

lemma split_nl_not_Nil [simp]: "split_nl s \<noteq> []"
  by (cases s) (simp_all split: list.split)

lemma foldl_fence_step_open:
  "in_code_block s \<Longrightarrow> \<forall>b \<in> set bs. \<not> startswith_fence b \<Longrightarrow>
   outputs (foldl fence_step s bs) = outputs s \<and> in_code_block (foldl fence_step s bs)"
  by (induction bs arbitrary: s) (simp_all add: fence_step_def)

text \<open>
  C3. Spec: \<open>format\<close> of the three lines "```", "hello", "```" yields an untagged fence
  whose body is "hello". The code returns the fence tagged \<open>hello\<close> with an empty body:
  the body line is read as the language when the fence closes.
\<close>

theorem untagged_fence_body_promoted:
  "render_markdown_with_code (''```'' @ [nl] @ ''hello'' @ [nl] @ ''```'')
     = ''```hello'' @ [nl] @ [nl] @ ''```''
   \<and> render_markdown_with_code (''```'' @ [nl] @ ''hello'' @ [nl] @ ''```'')
     \<noteq> ''```'' @ [nl] @ ''hello'' @ [nl] @ ''```''"
  by (simp add: render_markdown_with_code_def scan_lines_def fence_step_def
      close_block_def fence_init_def startswith_fence_def fence_def strip_def is_space_def nl_def)

text \<open>
  C5. An input that ends inside an open fence loses that fence: when the lines before
  the opening marker leave the scan outside a fence, the output of the whole input is
  the output of those lines alone, whatever the opening line and the buffered body
  lines are. In particular \<open>format\<close> of "```py", "abc" is the empty string.
\<close>

theorem dangling_fence_dropped:
  "(\<not> in_code_block (scan_lines pre) \<and> startswith_fence opening
      \<and> (\<forall>b \<in> set body. \<not> startswith_fence b)
    \<longrightarrow> in_code_block (scan_lines (pre @ opening # body))
      \<and> outputs (scan_lines (pre @ opening # body)) = outputs (scan_lines pre))
   \<and> render_markdown_with_code (''```py'' @ [nl] @ ''abc'') = []"
proof (intro conjI impI)
  assume h: "\<not> in_code_block (scan_lines pre) \<and> startswith_fence opening
      \<and> (\<forall>b \<in> set body. \<not> startswith_fence b)"
  let ?s = "fence_step (scan_lines pre) opening"
  have o: "in_code_block ?s \<and> outputs ?s = outputs (scan_lines pre)"
    using h by (simp add: fence_step_def Let_def)
  have "scan_lines (pre @ opening # body) = foldl fence_step ?s body"
    by (simp add: scan_lines_def)
  with o h foldl_fence_step_open [of ?s body]
  show "in_code_block (scan_lines (pre @ opening # body))"
    and "outputs (scan_lines (pre @ opening # body)) = outputs (scan_lines pre)"
    by simp_all
next
  show "render_markdown_with_code (''```py'' @ [nl] @ ''abc'') = []"
    by (simp add: render_markdown_with_code_def scan_lines_def fence_step_def
        fence_init_def startswith_fence_def fence_def strip_def is_space_def nl_def)
qed

theorem dangling_fence_dropped_witness:
  "\<not> in_code_block (scan_lines [''intro''])
   \<and> startswith_fence ''```py''
   \<and> \<not> startswith_fence ''abc'' \<and> \<not> startswith_fence ''def''
   \<and> in_code_block (scan_lines ([''intro''] @ ''```py'' # [''abc'', ''def'']))
   \<and> outputs (scan_lines ([''intro''] @ ''```py'' # [''abc'', ''def''])) = [''intro'']"
proof -
  have h: "\<not> in_code_block (scan_lines [''intro'']) \<and> startswith_fence ''```py''
      \<and> \<not> startswith_fence ''abc'' \<and> \<not> startswith_fence ''def''"
    by (simp add: scan_lines_def fence_step_def fence_init_def startswith_fence_def fence_def)
  have o: "outputs (scan_lines [''intro'']) = [''intro'']"
    by (simp add: scan_lines_def fence_step_def fence_init_def startswith_fence_def fence_def)
  from dangling_fence_dropped [of "[''intro'']" "''```py''" "[''abc'', ''def'']"] h o
  show ?thesis by simp
qed

lemma split_nl_no_nl: "l \<in> set (split_nl t) \<Longrightarrow> nl \<notin> set l"
proof (induction t arbitrary: l)
  case Nil
  then show ?case by simp
next
  case (Cons c cs)
  obtain h r where hr: "split_nl cs = h # r"
    using split_nl_not_Nil by (cases "split_nl cs") auto
  show ?case
  proof (cases "c = nl")
    case True
    with Cons show ?thesis by auto
  next
    case False
    with Cons.prems hr have "l = c # h \<or> l \<in> set r" by simp
    then show ?thesis
    proof
      assume "l = c # h"
      moreover have "nl \<notin> set h" using Cons.IH [of h] hr by simp
      ultimately show ?thesis using False by auto
    next
      assume "l \<in> set r"
      then show ?thesis using Cons.IH [of l] hr by simp
    qed
  qed
qed

lemma split_nl_plain: "nl \<notin> set l \<Longrightarrow> split_nl l = [l]"
  by (induction l) auto

lemma split_nl_append: "split_nl (a @ nl # b) = split_nl a @ split_nl b"
proof (induction a)
  case Nil
  then show ?case by simp
next
  case (Cons c cs)
  obtain h r where hr: "split_nl cs = h # r"
    using split_nl_not_Nil by (cases "split_nl cs") auto
  with Cons show ?case by simp
qed

lemma split_nl_join_nl:
  "ls \<noteq> [] \<Longrightarrow> split_nl (join_nl ls) = concat (map split_nl ls)"
proof (induction ls rule: join_nl.induct)
  case 1
  then show ?case by simp
next
  case (2 l)
  then show ?case by simp
next
  case (3 l m ls)
  then show ?case by (simp add: split_nl_append)
qed

lemma set_strip: "set (strip s) \<subseteq> set s"
proof -
  have "set (dropWhile is_space (rev (dropWhile is_space s))) \<subseteq> set (dropWhile is_space s)"
    using set_dropWhileD [of _ is_space "rev (dropWhile is_space s)"] by auto
  moreover have "set (dropWhile is_space s) \<subseteq> set s"
    using set_dropWhileD [of _ is_space s] by auto
  ultimately show ?thesis by (auto simp: strip_def)
qed

lemma rev_dropWhile_rev: "rev (dropWhile P (rev xs)) @ rev (takeWhile P (rev xs)) = xs"
proof -
  have "rev (takeWhile P (rev xs) @ dropWhile P (rev xs)) = xs"
    by (simp only: takeWhile_dropWhile_id rev_rev_ident)
  then show ?thesis by (simp only: rev_append)
qed

lemma strip_idem: "strip (strip s) = strip s"
proof -
  let ?a = "dropWhile is_space s"
  let ?b = "rev (dropWhile is_space (rev ?a))"
  have pre: "?a = ?b @ rev (takeWhile is_space (rev ?a))"
    using rev_dropWhile_rev [of is_space ?a] by simp
  have a: "?a = [] \<or> \<not> is_space (hd ?a)"
    by (metis hd_dropWhile)
  have b1: "dropWhile is_space ?b = ?b"
  proof (cases "?b")
    case Nil
    show ?thesis unfolding Nil by simp
  next
    case (Cons x xs)
    from pre have e: "?a = x # (xs @ rev (takeWhile is_space (rev ?a)))"
      unfolding Cons by (simp only: append_Cons)
    from e have "?a \<noteq> []" by (metis list.distinct(1))
    moreover from e have "hd ?a = x" by (metis list.sel(1))
    ultimately have "\<not> is_space x" using a by metis
    then show ?thesis unfolding Cons by simp
  qed
  have b2: "dropWhile is_space (rev ?b) = rev ?b"
    by (simp add: dropWhile_eq_self_iff)
  show ?thesis
    unfolding strip_def using b1 b2 by simp
qed

lemma foldl_fence_step_body:
  "in_code_block s \<Longrightarrow> \<forall>b \<in> set bs. \<not> startswith_fence b \<Longrightarrow>
   foldl fence_step s bs = s\<lparr>code_lines := code_lines s @ bs\<rparr>"
  by (induction bs arbitrary: s) (simp_all add: fence_step_def)

lemma concat_split_nl_plain:
  "\<forall>l \<in> set ls. nl \<notin> set l \<Longrightarrow> concat (map split_nl ls) = ls"
  by (induction ls) (simp_all add: split_nl_plain)

lemma split_nl_join_nl_plain:
  "ls \<noteq> [] \<Longrightarrow> \<forall>l \<in> set ls. nl \<notin> set l \<Longrightarrow> split_nl (join_nl ls) = ls"
  by (simp add: split_nl_join_nl concat_split_nl_plain)

lemma startswith_fence_tagged [simp]: "startswith_fence (fence @ L)"
  by (simp add: startswith_fence_def fence_def)

lemma drop_fence [simp]: "drop 3 (fence @ L) = L"
  by (simp add: fence_def)

lemma nl_notin_fence [simp]: "nl \<notin> set fence"
  by (simp add: fence_def nl_def)

lemma strip_Nil [simp]: "strip [] = []"
  by (simp add: strip_def)

lemma scan_block:
  assumes s: "\<not> in_code_block s" "code_lines s = []"
    and L: "nl \<notin> set L" "strip L = L"
    and body: "body \<noteq> []" "\<forall>b \<in> set body. \<not> startswith_fence b \<and> nl \<notin> set b"
  shows "foldl fence_step s (split_nl (fence @ L @ nl # join_nl body @ nl # fence))
       = s\<lparr>outputs := outputs s @ [close_block ((if L = [] then [] else [L]) @ body)]\<rparr>"
proof -
  have sp: "split_nl (fence @ L @ nl # join_nl body @ nl # fence) = (fence @ L) # body @ [fence]"
  proof -
    have "split_nl ((fence @ L) @ nl # (join_nl body @ nl # fence))
        = split_nl (fence @ L) @ split_nl (join_nl body @ nl # fence)"
      by (rule split_nl_append)
    also have "split_nl (fence @ L) = [fence @ L]"
      using L by (simp add: split_nl_plain)
    also have "split_nl (join_nl body @ nl # fence) = split_nl (join_nl body) @ split_nl fence"
      by (rule split_nl_append)
    also have "split_nl (join_nl body) = body"
      using body by (simp add: split_nl_join_nl_plain)
    also have "split_nl fence = [fence]"
      by (simp add: split_nl_plain)
    finally show ?thesis by simp
  qed
  let ?tag = "if L = [] then [] else [L]"
  let ?s1 = "s\<lparr>in_code_block := True, code_lines := ?tag\<rparr>"
  have d: "drop 3 (fence @ L) = L" by (rule drop_fence)
  have o: "fence_step s (fence @ L) = ?s1"
    using s L by (auto simp add: fence_step_def Let_def d simp del: drop_append)
  have b: "foldl fence_step ?s1 body = ?s1\<lparr>code_lines := ?tag @ body\<rparr>"
    using foldl_fence_step_body [of ?s1 body] body by simp
  have c: "fence_step (?s1\<lparr>code_lines := ?tag @ body\<rparr>) fence
      = s\<lparr>outputs := outputs s @ [close_block (?tag @ body)]\<rparr>"
    using s startswith_fence_tagged [of "[]"] by (cases s) (simp add: fence_step_def)
  show ?thesis
    unfolding sp using o b c by simp
qed

lemma reparses_plain:
  "nl \<notin> set l \<Longrightarrow> \<not> startswith_fence l \<Longrightarrow> reparses l"
  by (simp add: reparses_def split_nl_plain fence_step_def)

lemma close_block_Nil: "close_block [] = fence @ [] @ nl # join_nl [[]] @ nl # fence"
  by (simp add: close_block_def)

lemma reparses_close_block:
  assumes ok: "buffer_ok cl"
  shows "reparses (close_block cl)"
  unfolding reparses_def
proof (intro allI impI)
  fix s :: fence_state
  assume "\<not> in_code_block s \<and> code_lines s = []"
  then have s: "\<not> in_code_block s" "code_lines s = []" by simp_all
  show "foldl fence_step s (split_nl (close_block cl))
      = s\<lparr>outputs := outputs s @ [close_block cl]\<rparr>"
  proof (cases cl)
    case Nil
    have "foldl fence_step s (split_nl (fence @ [] @ nl # join_nl [[]] @ nl # fence))
        = s\<lparr>outputs := outputs s @ [close_block ((if [] = ([]::string) then [] else [[]]) @ [[]])]\<rparr>"
      using s by (intro scan_block) (simp_all add: startswith_fence_def fence_def)
    moreover have "close_block [[]] = close_block []"
      by (simp add: close_block_def)
    ultimately show ?thesis
      unfolding Nil close_block_Nil by simp
  next
    case (Cons h rest)
    let ?L = "if h \<noteq> [] then strip h else []"
    from ok Cons have nonl: "nl \<notin> set h" "\<forall>b \<in> set rest. nl \<notin> set b"
      and body: "\<forall>b \<in> set rest. \<not> startswith_fence b"
      and hd: "startswith_fence h \<longrightarrow> CHR '' '' \<notin> set h \<and> strip h = h \<and> h \<noteq> []"
      by (simp_all add: buffer_ok_def)
    have Lnl: "nl \<notin> set ?L" using nonl set_strip [of h] by auto
    have Lst: "strip ?L = ?L" by (simp add: strip_idem)
    show ?thesis
    proof (cases "?L \<noteq> [] \<and> CHR '' '' \<notin> set ?L")
      case True
      then have cb: "close_block cl = fence @ ?L @ nl # join_nl rest @ nl # fence"
        unfolding Cons by (auto simp: close_block_def Let_def split: if_splits)
      show ?thesis
      proof (cases "rest = []")
        case e: True
        have "foldl fence_step s (split_nl (fence @ ?L @ nl # join_nl [[]] @ nl # fence))
            = s\<lparr>outputs := outputs s @ [close_block ((if ?L = [] then [] else [?L]) @ [[]])]\<rparr>"
          using s Lnl Lst by (intro scan_block) (simp_all add: startswith_fence_def fence_def)
        moreover have "close_block ((if ?L = [] then [] else [?L]) @ [[]])
            = fence @ ?L @ nl # join_nl [[]] @ nl # fence"
          using True Lst by (auto simp: close_block_def Let_def split: if_splits)
        moreover have "join_nl rest = join_nl [[]]" using e by simp
        ultimately show ?thesis unfolding cb by simp
      next
        case ne: False
        have "foldl fence_step s (split_nl (fence @ ?L @ nl # join_nl rest @ nl # fence))
            = s\<lparr>outputs := outputs s @ [close_block ((if ?L = [] then [] else [?L]) @ rest)]\<rparr>"
          using s Lnl Lst ne body nonl by (intro scan_block) simp_all
        moreover have "close_block ((if ?L = [] then [] else [?L]) @ rest)
            = fence @ ?L @ nl # join_nl rest @ nl # fence"
          using True Lst by (auto simp: close_block_def Let_def split: if_splits)
        ultimately show ?thesis unfolding cb by simp
      qed
    next
      case False
      then have cb: "close_block cl = fence @ [] @ nl # join_nl cl @ nl # fence"
        unfolding Cons by (auto simp: close_block_def Let_def split: if_splits)
      have nf: "\<not> startswith_fence h"
      proof
        assume f: "startswith_fence h"
        with hd have "CHR '' '' \<notin> set h" "strip h = h" "h \<noteq> []" by simp_all
        then have "?L \<noteq> [] \<and> CHR '' '' \<notin> set ?L" by simp
        with False show False by simp
      qed
      have "foldl fence_step s (split_nl (fence @ [] @ nl # join_nl cl @ nl # fence))
          = s\<lparr>outputs := outputs s @ [close_block ((if [] = ([]::string) then [] else [[]]) @ cl)]\<rparr>"
        using s nf body nonl unfolding Cons by (intro scan_block) simp_all
      then show ?thesis using cb by simp
    qed
  qed
qed

lemma buffer_ok_tag:
  assumes "nl \<notin> set line" "\<not> bad_tag (strip (drop 3 line))"
  shows "buffer_ok (if strip (drop 3 line) \<noteq> [] then [strip (drop 3 line)] else [])"
proof -
  have "nl \<notin> set (strip (drop 3 line))"
    using assms(1) set_strip [of "drop 3 line"] set_drop_subset [of 3 line] by auto
  then show ?thesis
    using assms(2) by (auto simp: buffer_ok_def bad_tag_def strip_idem)
qed

lemma buffer_ok_snoc:
  assumes "buffer_ok cl" "nl \<notin> set line" "\<not> startswith_fence line"
  shows "buffer_ok (cl @ [line])"
  using assms by (cases cl) (auto simp: buffer_ok_def)

lemma scan_ok_step:
  assumes "scan_ok s" "nl \<notin> set line"
    and "startswith_fence line \<and> \<not> in_code_block s \<longrightarrow> \<not> bad_tag (strip (drop 3 line))"
  shows "scan_ok (fence_step s line)"
proof (cases "startswith_fence line")
  case True
  show ?thesis
  proof (cases "in_code_block s")
    case i: True
    with assms(1) have "buffer_ok (code_lines s)" by (simp add: scan_ok_def)
    then have "reparses (close_block (code_lines s))" by (rule reparses_close_block)
    with assms(1) True i show ?thesis by (simp add: scan_ok_def fence_step_def)
  next
    case o: False
    with assms(1) have e: "code_lines s = []" by (simp add: scan_ok_def)
    from True o assms(3) have "\<not> bad_tag (strip (drop 3 line))" by simp
    with assms(2) have "buffer_ok (if strip (drop 3 line) \<noteq> [] then [strip (drop 3 line)] else [])"
      by (rule buffer_ok_tag)
    with assms(1) True o e show ?thesis
      by (auto simp: scan_ok_def fence_step_def Let_def split: if_splits)
  qed
next
  case False
  show ?thesis
  proof (cases "in_code_block s")
    case i: True
    with assms(1) have "buffer_ok (code_lines s)" by (simp add: scan_ok_def)
    with assms(2) False have "buffer_ok (code_lines s @ [line])" by (simp add: buffer_ok_snoc)
    with assms(1) False i show ?thesis by (simp add: scan_ok_def fence_step_def)
  next
    case o: False
    from assms(2) False have "reparses line" by (rule reparses_plain)
    with assms(1) False o show ?thesis by (simp add: scan_ok_def fence_step_def)
  qed
qed

lemma in_code_block_step:
  "in_code_block (fence_step s line) =
     (if startswith_fence line then \<not> in_code_block s else in_code_block s)"
  by (simp add: fence_step_def Let_def)

lemma scan_ok_foldl:
  "scan_ok s \<Longrightarrow> \<forall>l \<in> set ls. nl \<notin> set l \<Longrightarrow> tags_ok (in_code_block s) ls \<Longrightarrow>
   scan_ok (foldl fence_step s ls)"
proof (induction ls arbitrary: s)
  case Nil
  then show ?case by simp
next
  case (Cons l ls)
  have st: "scan_ok (fence_step s l)"
    using Cons.prems by (intro scan_ok_step) (auto split: if_splits)
  have tg: "tags_ok (in_code_block (fence_step s l)) ls"
    using Cons.prems(3) by (auto simp: in_code_block_step split: if_splits)
  show ?case
    using Cons.IH [OF st _ tg] Cons.prems(2) by simp
qed

lemma foldl_reparses:
  "\<forall>blk \<in> set bs. reparses blk \<Longrightarrow> \<not> in_code_block s \<Longrightarrow> code_lines s = [] \<Longrightarrow>
   foldl fence_step s (concat (map split_nl bs)) = s\<lparr>outputs := outputs s @ bs\<rparr>"
proof (induction bs arbitrary: s)
  case Nil
  then show ?case by simp
next
  case (Cons b bs)
  from Cons.prems have "foldl fence_step s (split_nl b) = s\<lparr>outputs := outputs s @ [b]\<rparr>"
    by (simp add: reparses_def)
  moreover have "foldl fence_step (s\<lparr>outputs := outputs s @ [b]\<rparr>) (concat (map split_nl bs))
      = s\<lparr>outputs := outputs s @ [b]\<rparr>\<lparr>outputs := outputs (s\<lparr>outputs := outputs s @ [b]\<rparr>) @ bs\<rparr>"
    using Cons.prems by (intro Cons.IH) simp_all
  ultimately show ?case by simp
qed

lemma render_outputs_fixed:
  assumes "\<forall>blk \<in> set bs. reparses blk"
  shows "render_markdown_with_code (join_nl bs) = join_nl bs"
proof (cases "bs = []")
  case True
  then show ?thesis
    by (simp add: render_markdown_with_code_def scan_lines_def fence_step_def fence_init_def
        startswith_fence_def fence_def)
next
  case False
  then have "split_nl (join_nl bs) = concat (map split_nl bs)" by (rule split_nl_join_nl)
  moreover have "foldl fence_step fence_init (concat (map split_nl bs))
      = fence_init\<lparr>outputs := outputs fence_init @ bs\<rparr>"
    using assms by (intro foldl_reparses) (simp_all add: fence_init_def)
  ultimately show ?thesis
    by (simp add: render_markdown_with_code_def scan_lines_def fence_init_def)
qed

lemma render_idempotent_tags_ok:
  assumes "tags_ok False (split_nl t)"
  shows "render_markdown_with_code (render_markdown_with_code t) = render_markdown_with_code t"
proof -
  have "scan_ok fence_init" by (simp add: scan_ok_def fence_init_def)
  moreover have "\<forall>l \<in> set (split_nl t). nl \<notin> set l" using split_nl_no_nl by blast
  moreover have "tags_ok (in_code_block fence_init) (split_nl t)"
    using assms by (simp add: fence_init_def)
  ultimately have "scan_ok (scan_lines (split_nl t))"
    unfolding scan_lines_def by (rule scan_ok_foldl)
  then have "\<forall>blk \<in> set (outputs (scan_lines (split_nl t))). reparses blk"
    by (simp add: scan_ok_def)
  then show ?thesis
    unfolding render_markdown_with_code_def [of t] by (rule render_outputs_fixed)
qed

text \<open>
  C4. \<open>format\<close> is idempotent on well-formed text: for every text \<open>t\<close> that is a
  well-formed sequence of plain lines and properly opened-and-closed fences,
  \<open>format (format t) = format t\<close>.
\<close>

theorem format_idempotent_well_formed:
  assumes "well_formed t"
  shows "render_markdown_with_code (render_markdown_with_code t) = render_markdown_with_code t"
  using assms by (simp add: well_formed_def render_idempotent_tags_ok)

theorem format_idempotent_well_formed_witness:
  "well_formed (''intro'' @ [nl] @ ''```py'' @ [nl] @ ''x=1'' @ [nl] @ ''```''
        @ [nl] @ ''``` a b'' @ [nl] @ ''c'' @ [nl] @ ''```'')
   \<and> render_markdown_with_code (render_markdown_with_code
        (''intro'' @ [nl] @ ''```py'' @ [nl] @ ''x=1'' @ [nl] @ ''```''
        @ [nl] @ ''``` a b'' @ [nl] @ ''c'' @ [nl] @ ''```''))
     = render_markdown_with_code
        (''intro'' @ [nl] @ ''```py'' @ [nl] @ ''x=1'' @ [nl] @ ''```''
        @ [nl] @ ''``` a b'' @ [nl] @ ''c'' @ [nl] @ ''```'')"
proof -
  let ?t = "''intro'' @ [nl] @ ''```py'' @ [nl] @ ''x=1'' @ [nl] @ ''```''
        @ [nl] @ ''``` a b'' @ [nl] @ ''c'' @ [nl] @ ''```''"
  have w: "well_formed ?t"
    by code_simp
  note i = format_idempotent_well_formed [OF w]
  show ?thesis
    apply (intro conjI)
     apply (rule w)
    apply (rule i)
    done
qed

text \<open>
  The second condition of \<open>well_formed\<close> is needed: an opening line that carries a
  second marker and a space leaves the scan outside a fence, and the second pass differs.
\<close>

lemma second_marker_in_opening_line:
  "\<not> in_code_block (scan_lines (split_nl (''``` ``` x'' @ [nl] @ ''body'' @ [nl] @ ''```'')))
   \<and> \<not> well_formed (''``` ``` x'' @ [nl] @ ''body'' @ [nl] @ ''```'')
   \<and> render_markdown_with_code
         (render_markdown_with_code (''``` ``` x'' @ [nl] @ ''body'' @ [nl] @ ''```''))
       \<noteq> render_markdown_with_code (''``` ``` x'' @ [nl] @ ''body'' @ [nl] @ ''```'')"
  by code_simp

section \<open>Properties of the history store and the controller\<close>

lemma get_user_history_file_upd [simp]:
  "get_user_history_file (s\<lparr>chat_history := h\<rparr>) = get_user_history_file s"
  "get_user_history_file (s\<lparr>session_state.messages := ms\<rparr>) = get_user_history_file s"
  "get_user_history_file (s\<lparr>current_idx := ci\<rparr>) = get_user_history_file s"
  "get_user_history_file (s\<lparr>to_stream := ts\<rparr>) = get_user_history_file s"
  "get_user_history_file (s\<lparr>stop_requested := b\<rparr>) = get_user_history_file s"
  "get_user_history_file (s\<lparr>file_text := ft\<rparr>) = get_user_history_file s"
  by (simp_all add: get_user_history_file_def)

lemma save_history_ok:
  "can_write fs s \<Longrightarrow> save_history json_dump fs s h = Inr (written json_dump fs s h)"
  by (auto simp: can_write_def save_history_def written_def split: option.splits)

lemma save_history_fail:
  "\<not> can_write fs s \<Longrightarrow> save_history json_dump fs s h = Inl PermissionError"
  by (auto simp: can_write_def save_history_def split: option.splits)

lemma stream_loop_yields:
  "stream_loop False acc (map Yield cs @ es) = stream_loop False (acc @ concat (map delta cs)) es"
  by (induction cs arbitrary: acc) simp_all

lemma finalize_new:
  assumes "current_idx s = None" "can_write fs s"
  shows "finalize json_dump selected_model now full_response (fs, s) =
    (let ms = session_state.messages s @ [assistant_message full_response];
         h = chat_history s @ [\<lparr>name = title_of (first_user ms), chat_obj.messages = ms,
                                 timestamp = now, chat_obj.model = selected_model\<rparr>]
     in Inr (written json_dump fs s h,
             s\<lparr>session_state.messages := ms, chat_history := h,
               current_idx := Some (length (chat_history s)),
               to_stream := None, stop_requested := False\<rparr>))"
  using assms
  by (simp add: finalize_def save_to_history_def Let_def assistant_message_def
      save_history_ok can_write_def written_def)

lemma finalize_existing:
  assumes "current_idx s = Some i" "i < length (chat_history s)" "can_write fs s"
  shows "finalize json_dump selected_model now full_response (fs, s) =
    (let ms = session_state.messages s @ [assistant_message full_response];
         h = (chat_history s)[i := (chat_history s ! i)\<lparr>chat_obj.messages := ms, timestamp := now,
                                   chat_obj.model := selected_model\<rparr>]
     in Inr (written json_dump fs s h,
             s\<lparr>session_state.messages := ms, chat_history := h,
               to_stream := None, stop_requested := False\<rparr>))"
  using assms
  by (simp add: finalize_def save_to_history_def Let_def assistant_message_def
      save_history_ok can_write_def written_def)

lemma finalize_messages:
  "finalize json_dump selected_model now full_response (fs, s) = Inr (fs', s') \<Longrightarrow>
   session_state.messages s' = session_state.messages s @ [assistant_message full_response]"
  by (auto simp: finalize_def save_to_history_def Let_def assistant_message_def
      split: sum.splits option.splits if_splits)

lemma finalize_returns:
  "can_write fs s \<Longrightarrow> index_in_range s \<Longrightarrow>
   \<exists>fs' s'. finalize json_dump selected_model now full_response (fs, s) = Inr (fs', s')"
  by (cases "current_idx s")
     (simp_all add: index_in_range_def finalize_new finalize_existing Let_def)

lemma finalize_persisted:
  "finalize json_dump selected_model now full_response (fs, s) = Inr (fs', s') \<Longrightarrow>
   map_option data (fs' (get_user_history_file s)) = Some (json_dump (chat_history s'))
   \<and> to_stream s' = None \<and> \<not> stop_requested s'"
  by (auto simp: finalize_def save_to_history_def save_history_def Let_def
      split: sum.splits option.splits if_splits)

lemma finalize_index:
  "finalize json_dump selected_model now full_response (fs, s) = Inr (fs', s') \<Longrightarrow>
   index_in_range s \<and> can_write fs s"
  by (auto simp: finalize_def save_to_history_def save_history_def Let_def index_in_range_def
      can_write_def split: sum.splits option.splits if_splits)

lemma render_empty [simp]: "render_markdown_with_code [] = []"
  by (simp add: render_markdown_with_code_def scan_lines_def fence_step_def fence_init_def
      startswith_fence_def fence_def)

lemma finalize_result:
  assumes "can_write fs s" "index_in_range s"
  shows "\<exists>fs' s'. finalize json_dump selected_model now full_response (fs, s) = Inr (fs', s')
     \<and> session_state.messages s' =
         session_state.messages s @
           [\<lparr>role = ''assistant'', content = render_markdown_with_code full_response,
             formatted = Some True\<rparr>]
     \<and> (current_idx s = None \<longrightarrow>
           chat_history s' = chat_history s @
             [\<lparr>name = title_of (first_user (session_state.messages s')),
               chat_obj.messages = session_state.messages s',
               timestamp = now, chat_obj.model = selected_model\<rparr>]
         \<and> current_idx s' = Some (length (chat_history s)))
     \<and> (\<forall>i. current_idx s = Some i \<longrightarrow>
           chat_history s' = (chat_history s)
             [i := (chat_history s ! i)\<lparr>chat_obj.messages := session_state.messages s',
                                        timestamp := now, chat_obj.model := selected_model\<rparr>]
         \<and> current_idx s' = Some i)
     \<and> map_option data (fs' (get_user_history_file s)) = Some (json_dump (chat_history s'))
     \<and> to_stream s' = None \<and> \<not> stop_requested s'"
proof (cases "current_idx s")
  case None
  show ?thesis
    using finalize_new [OF None assms(1), of json_dump selected_model now full_response] None
    by (simp add: Let_def assistant_message_def written_def split: option.splits)
next
  case (Some i)
  with assms(2) have i: "i < length (chat_history s)" by (simp add: index_in_range_def)
  show ?thesis
    using finalize_existing [OF Some i assms(1), of json_dump selected_model now full_response] Some
    by (simp add: Let_def assistant_message_def written_def split: option.splits)
qed



text \<open>
  C6. When the stream raises (after any chunks), \<open>full_response\<close> is replaced by the
  error text. The turn is the same turn as a normal reply whose only chunk is that text:
  the formatted error text is appended as an assistant message with \<open>formatted = True\<close>,
  the history gets a new record (no conversation active) or the current record is
  updated, that history is written to the file, and \<open>to_stream\<close> is cleared, so nothing
  is streamed again.
\<close>

theorem stream_error_finalized:
  "stream_loop False [] (map Yield cs @ Raise e # rest) = (''**Error:** '' @ e, rest)
   \<and> (to_stream s = Some req \<and> \<not> stop_requested s \<longrightarrow>
        stream_turn json_dump selected_model now (map Yield cs @ Raise e # rest) (fs, s)
          = stream_turn json_dump selected_model now [Yield (Some (Some (''**Error:** '' @ e)))] (fs, s)
        \<and> (can_write fs s \<and> index_in_range s \<longrightarrow>
            (\<exists>fs' s'. stream_turn json_dump selected_model now
                  (map Yield cs @ Raise e # rest) (fs, s) = Inr (fs', s')
               \<and> session_state.messages s' = session_state.messages s @
                    [\<lparr>role = ''assistant'',
                      content = render_markdown_with_code (''**Error:** '' @ e),
                      formatted = Some True\<rparr>]
               \<and> (current_idx s = None \<longrightarrow>
                     chat_history s' = chat_history s @
                       [\<lparr>name = title_of (first_user (session_state.messages s')),
                         chat_obj.messages = session_state.messages s',
                         timestamp = now, chat_obj.model = selected_model\<rparr>]
                   \<and> current_idx s' = Some (length (chat_history s)))
               \<and> (\<forall>i. current_idx s = Some i \<longrightarrow>
                     chat_history s' = (chat_history s)
                       [i := (chat_history s ! i)
                               \<lparr>chat_obj.messages := session_state.messages s',
                                timestamp := now, chat_obj.model := selected_model\<rparr>]
                   \<and> current_idx s' = Some i)
               \<and> map_option data (fs' (get_user_history_file s)) = Some (json_dump (chat_history s'))
               \<and> to_stream s' = None \<and> \<not> stop_requested s')))"
proof -
  have loop: "stream_loop False [] (map Yield cs @ Raise e # rest) = (''**Error:** '' @ e, rest)"
    using stream_loop_yields [of "[]" cs "Raise e # rest"] by simp
  have fin: "can_write fs s \<and> index_in_range s \<longrightarrow>
     (\<exists>fs' s'. finalize json_dump selected_model now (''**Error:** '' @ e) (fs, s) = Inr (fs', s')
        \<and> session_state.messages s' = session_state.messages s @
             [\<lparr>role = ''assistant'',
               content = render_markdown_with_code (''**Error:** '' @ e),
               formatted = Some True\<rparr>]
        \<and> (current_idx s = None \<longrightarrow>
              chat_history s' = chat_history s @
                [\<lparr>name = title_of (first_user (session_state.messages s')),
                  chat_obj.messages = session_state.messages s',
                  timestamp = now, chat_obj.model = selected_model\<rparr>]
            \<and> current_idx s' = Some (length (chat_history s)))
        \<and> (\<forall>i. current_idx s = Some i \<longrightarrow>
              chat_history s' = (chat_history s)
                [i := (chat_history s ! i)
                        \<lparr>chat_obj.messages := session_state.messages s',
                         timestamp := now, chat_obj.model := selected_model\<rparr>]
            \<and> current_idx s' = Some i)
        \<and> map_option data (fs' (get_user_history_file s)) = Some (json_dump (chat_history s'))
        \<and> to_stream s' = None \<and> \<not> stop_requested s')"
    using finalize_result [of fs s json_dump selected_model now "''**Error:** '' @ e"]
    by (intro impI) (elim conjE, simp)
  show ?thesis
    using loop fin by (simp add: stream_turn_def)
qed

lemma finalize_existing_history:
  assumes r: "finalize json_dump selected_model now full_response (fs, s) = Inr (fs', s')"
    and c: "current_idx s = Some i"
  shows "i < length (chat_history s)
     \<and> chat_history s' = (chat_history s)
          [i := (chat_history s ! i)\<lparr>chat_obj.messages := session_state.messages s',
                                     timestamp := now, chat_obj.model := selected_model\<rparr>]
     \<and> current_idx s' = Some i"
  using r c
  by (auto simp: finalize_def save_to_history_def save_history_def Let_def
      split: sum.splits option.splits if_splits)

text \<open>
  C9. A turn that is finalised while \<open>current_idx = Some i\<close> replaces the record at
  \<open>i\<close>: the list keeps its length, the record gets the new messages, time and model and
  keeps its name, every other record is unchanged, \<open>current_idx\<close> stays, and the list
  is written to the file. Such a turn is finalised whenever \<open>i\<close> is an index of the list
  and the file can be written.
\<close>

theorem existing_record_updated_in_place:
  assumes q: "to_stream s = Some req" and c: "current_idx s = Some i"
  shows "(stream_turn json_dump selected_model now events (fs, s) = Inr (fs', s') \<longrightarrow>
            i < length (chat_history s)
          \<and> length (chat_history s') = length (chat_history s)
          \<and> chat_history s' = (chat_history s)
               [i := (chat_history s ! i)\<lparr>chat_obj.messages := session_state.messages s',
                                          timestamp := now, chat_obj.model := selected_model\<rparr>]
          \<and> name (chat_history s' ! i) = name (chat_history s ! i)
          \<and> chat_obj.messages (chat_history s' ! i) = session_state.messages s'
          \<and> timestamp (chat_history s' ! i) = now
          \<and> chat_obj.model (chat_history s' ! i) = selected_model
          \<and> (\<forall>j. j < length (chat_history s) \<and> j \<noteq> i \<longrightarrow> chat_history s' ! j = chat_history s ! j)
          \<and> current_idx s' = Some i
          \<and> map_option data (fs' (get_user_history_file s)) = Some (json_dump (chat_history s')))
       \<and> (i < length (chat_history s) \<and> can_write fs s \<longrightarrow>
            (\<exists>fs1 s1. stream_turn json_dump selected_model now events (fs, s) = Inr (fs1, s1)))"
proof (intro conjI impI)
  let ?fr = "fst (stream_loop (stop_requested s) [] events)"
  have t: "stream_turn json_dump selected_model now events (fs, s)
      = finalize json_dump selected_model now ?fr (fs, s)"
    using q by (simp add: stream_turn_def)
  {
    assume "i < length (chat_history s) \<and> can_write fs s"
    then show "\<exists>fs1 s1. stream_turn json_dump selected_model now events (fs, s) = Inr (fs1, s1)"
      using finalize_returns [of fs s json_dump selected_model now ?fr] c t
      by (simp add: index_in_range_def)
  }
  assume "stream_turn json_dump selected_model now events (fs, s) = Inr (fs', s')"
  with t have r: "finalize json_dump selected_model now ?fr (fs, s) = Inr (fs', s')" by simp
  note h = finalize_existing_history [OF r c]
  from h show "i < length (chat_history s)" by simp
  from h show "length (chat_history s') = length (chat_history s)" by simp
  from h show "chat_history s' = (chat_history s)
               [i := (chat_history s ! i)\<lparr>chat_obj.messages := session_state.messages s',
                                          timestamp := now, chat_obj.model := selected_model\<rparr>]"
    by simp
  from h show "name (chat_history s' ! i) = name (chat_history s ! i)" by simp
  from h show "chat_obj.messages (chat_history s' ! i) = session_state.messages s'" by simp
  from h show "timestamp (chat_history s' ! i) = now" by simp
  from h show "chat_obj.model (chat_history s' ! i) = selected_model" by simp
  from h show "\<forall>j. j < length (chat_history s) \<and> j \<noteq> i \<longrightarrow> chat_history s' ! j = chat_history s ! j" by simp
  from h show "current_idx s' = Some i" by simp
  from finalize_persisted [OF r]
  show "map_option data (fs' (get_user_history_file s)) = Some (json_dump (chat_history s'))"
    by simp
qed

text \<open>
  C10. Spec: after deleting a record below the current one, the unchanged current index
  designates a different record than before. When the current record is the last one,
  the unchanged index designates no record at all: it lies beyond the shortened list.
\<close>

theorem delete_leaves_index_beyond_list_counterexample:
  "delete_chat example_dump 0
     (Map.empty, (init_session ''u'' [example_record, example_record\<lparr>name := ''b''\<rparr>])
        \<lparr>current_idx := Some 1\<rparr>)
     = Inr (Map.empty(''chat_histories/u.json'' \<mapsto>
              \<lparr>readable = True, writable = True, data = ''b''\<rparr>),
            (init_session ''u'' [example_record\<lparr>name := ''b''\<rparr>])\<lparr>current_idx := Some 1\<rparr>)
   \<and> current_idx ((init_session ''u'' [example_record\<lparr>name := ''b''\<rparr>])\<lparr>current_idx := Some 1\<rparr>)
       = Some 1
   \<and> length (chat_history
         ((init_session ''u'' [example_record\<lparr>name := ''b''\<rparr>])\<lparr>current_idx := Some 1\<rparr>)) = 1"
  by (simp add: delete_chat_def save_history_def init_session_def get_user_history_file_def
      HISTORY_DIR_def Let_def)

text \<open>
  C10, amended. Deleting the record at a valid index \<open>i\<close> removes exactly that record
  (the ones before keep their place, the ones behind move down by one) and writes the
  shortened list. The working messages and \<open>current_idx\<close> are reset exactly when \<open>i\<close>
  is the current index; otherwise both are unchanged. When \<open>i\<close> is below the current
  index \<open>c\<close>, the record that was current now sits at \<open>c - 1\<close>, and \<open>c\<close> designates
  the record that followed it when there was one, and otherwise lies beyond the list.
\<close>

theorem delete_resets_only_current:
  assumes i: "i < length (chat_history s)" and w: "can_write fs s"
  shows "\<exists>fs' s'. delete_chat json_dump i (fs, s) = Inr (fs', s')
     \<and> chat_history s' = take i (chat_history s) @ drop (Suc i) (chat_history s)
     \<and> Suc (length (chat_history s')) = length (chat_history s)
     \<and> (\<forall>j. j < i \<longrightarrow> chat_history s' ! j = chat_history s ! j)
     \<and> (\<forall>j. i \<le> j \<and> Suc j < length (chat_history s) \<longrightarrow>
            chat_history s' ! j = chat_history s ! Suc j)
     \<and> map_option data (fs' (get_user_history_file s)) = Some (json_dump (chat_history s'))
     \<and> (current_idx s = Some i \<longrightarrow>
            session_state.messages s' = [] \<and> current_idx s' = None)
     \<and> (current_idx s \<noteq> Some i \<longrightarrow>
            session_state.messages s' = session_state.messages s
          \<and> current_idx s' = current_idx s)
     \<and> (\<forall>c. current_idx s = Some c \<and> i < c \<and> c < length (chat_history s) \<longrightarrow>
            current_idx s' = Some c
          \<and> chat_history s' ! (c - 1) = chat_history s ! c
          \<and> (if Suc c < length (chat_history s)
              then chat_history s' ! c = chat_history s ! Suc c
              else length (chat_history s') \<le> c))"
proof -
  let ?h = "take i (chat_history s) @ drop (Suc i) (chat_history s)"
  let ?s1 = "s\<lparr>chat_history := ?h\<rparr>"
  let ?s' = "if current_idx s = Some i
             then ?s1\<lparr>session_state.messages := [], current_idx := None\<rparr> else ?s1"
  have d: "delete_chat json_dump i (fs, s) = Inr (written json_dump fs s ?h, ?s')"
    using i w save_history_ok [of fs ?s1 json_dump ?h]
    by (simp add: delete_chat_def Let_def can_write_def written_def)
  have len: "Suc (length ?h) = length (chat_history s)" using i by simp
  have lo: "\<forall>j. j < i \<longrightarrow> ?h ! j = chat_history s ! j"
    using i by (simp add: nth_append)
  have hi: "\<forall>j. i \<le> j \<and> Suc j < length (chat_history s) \<longrightarrow> ?h ! j = chat_history s ! Suc j"
    using i by (auto simp: nth_append min_def)
  have cur: "\<forall>c. i < c \<and> c < length (chat_history s) \<longrightarrow> ?h ! (c - 1) = chat_history s ! c"
    using hi by (metis Suc_pred' less_Suc_eq_le less_imp_Suc_add zero_less_Suc)
  have ch: "chat_history ?s' = ?h" by simp
  show ?thesis
    apply (rule exI [of _ "written json_dump fs s ?h"])
    apply (rule exI [of _ ?s'])
    apply (intro conjI)
    subgoal using d by simp
    subgoal by simp
    subgoal using len by simp
    subgoal using lo by simp
    subgoal using hi by simp
    subgoal by (simp add: written_def split: option.splits)
    subgoal by simp
    subgoal by simp
    subgoal using cur hi len by auto
    done
qed

subsection \<open>The library model reads back what it wrote\<close>






lemma not_ws [simp]:
  "\<not> is_json_ws dq" "\<not> is_json_ws (CHR ''['')" "\<not> is_json_ws (CHR '']'')"
  "\<not> is_json_ws (CHR ''{'')" "\<not> is_json_ws (CHR ''}'')" "\<not> is_json_ws (CHR '','')"
  "\<not> is_json_ws (CHR '':'')" "\<not> is_json_ws (CHR ''n'')" "\<not> is_json_ws (CHR ''t'')"
  "\<not> is_json_ws (CHR ''f'')"
  by (simp_all add: is_json_ws_def dq_def)

lemma skip_ws_Cons [simp]: "\<not> is_json_ws c \<Longrightarrow> skip_ws (c # s) = c # s"
  by (simp add: skip_ws_def)

lemma skip_ws_space [simp]: "skip_ws (CHR '' '' # s) = skip_ws s"
  by (simp add: skip_ws_def is_json_ws_def)

lemma skip_ws_newline_indent [simp]: "skip_ws (newline_indent level @ s) = skip_ws s"
proof -
  have "\<forall>c \<in> set (newline_indent level). is_json_ws c"
    by (auto simp: newline_indent_def is_json_ws_def nl_def)
  then show ?thesis
    unfolding skip_ws_def by (simp add: dropWhile_append2)
qed



















lemma length_newline_indent [simp]: "length (newline_indent l) = Suc (2 * l)"
  by (simp add: newline_indent_def)
















subsection \<open>Load and save\<close>




text \<open>
  C1. Submitting a non-empty text while idle appends the user message (with the pending
  file context in front, which is then cleared), queues the request whose messages are the
  system prompt followed by the working messages, and resets the stop flag. A stream of
  chunks with no cancellation then appends the assistant message whose content is
  \<open>format\<close> of the concatenated deltas, with \<open>formatted = True\<close>, whether or not a
  conversation is active. When none is active, a new record named by the first user
  message (30 characters and an ellipsis when longer) is appended to the history and
  \<open>current_idx\<close> is its position; otherwise the current record is updated. The history
  is written and the streaming state reset.
\<close>

theorem submit_then_turn:
  assumes idle: "to_stream s = None" and ne: "user_input \<noteq> []"
    and ft: "file_text s \<noteq> Some []"
  shows
    "session_state.messages (submit selected_model user_input s) =
       session_state.messages s @
         [\<lparr>role = ''user'',
           content = (case file_text s of
                        None \<Rightarrow> user_input
                      | Some t \<Rightarrow> ''File context:'' @ [nl] @ t @ [nl, nl] @ ''---'' @ [nl, nl]
                                   @ user_input),
           formatted = None\<rparr>]
     \<and> file_text (submit selected_model user_input s) = None
     \<and> to_stream (submit selected_model user_input s) =
         Some \<lparr>request.model = selected_model,
               request.messages =
                 \<lparr>role = ''system'', content = system_prompt s, formatted = None\<rparr>
                   # session_state.messages (submit selected_model user_input s)\<rparr>
     \<and> \<not> stop_requested (submit selected_model user_input s)
     \<and> (can_write fs s \<and> index_in_range s \<longrightarrow>
          (\<exists>fs' s'.
             stream_turn json_dump selected_model now (map Yield chunks)
               (fs, submit selected_model user_input s) = Inr (fs', s')
           \<and> session_state.messages s' =
               session_state.messages (submit selected_model user_input s) @
                 [\<lparr>role = ''assistant'',
                   content = render_markdown_with_code (concat (map delta chunks)),
                   formatted = Some True\<rparr>]
           \<and> (current_idx s = None \<longrightarrow>
                 chat_history s' = chat_history s @
                   [\<lparr>name = (let fu = first_user (session_state.messages s')
                               in if length fu > 30 then take 30 fu @ ''...'' else fu),
                     chat_obj.messages = session_state.messages s',
                     timestamp = now, chat_obj.model = selected_model\<rparr>]
               \<and> current_idx s' = Some (length (chat_history s))
               \<and> (session_state.messages s = [] \<longrightarrow>
                    first_user (session_state.messages s') =
                      content (hd (session_state.messages (submit selected_model user_input s)))))
           \<and> (\<forall>i. current_idx s = Some i \<longrightarrow>
                 chat_history s' = (chat_history s)
                   [i := (chat_history s ! i)
                           \<lparr>chat_obj.messages := session_state.messages s',
                            timestamp := now, chat_obj.model := selected_model\<rparr>]
               \<and> current_idx s' = Some i)
           \<and> map_option data (fs' (get_user_history_file s)) = Some (json_dump (chat_history s'))
           \<and> to_stream s' = None \<and> \<not> stop_requested s'))"
proof -
  let ?s1 = "submit selected_model user_input s"
  let ?text = "(case file_text s of
                        None \<Rightarrow> user_input
                      | Some t \<Rightarrow> ''File context:'' @ [nl] @ t @ [nl, nl] @ ''---'' @ [nl, nl]
                                   @ user_input)"
  have wfc: "with_file_context (file_text s) user_input = ?text"
    using ft by (simp add: with_file_context_def split: option.splits)
  have m: "session_state.messages ?s1 = session_state.messages s @
         [\<lparr>role = ''user'', content = ?text, formatted = None\<rparr>]"
    using idle ne wfc by (simp add: submit_def Let_def)
  have f: "file_text ?s1 = None"
    using idle ne ft by (cases "file_text s") (simp_all add: submit_def Let_def)
  have q: "to_stream ?s1 = Some \<lparr>request.model = selected_model,
               request.messages =
                 \<lparr>role = ''system'', content = system_prompt s, formatted = None\<rparr>
                   # session_state.messages ?s1\<rparr>"
    using idle ne by (simp add: submit_def Let_def)
  have st: "\<not> stop_requested ?s1"
    using idle ne by (simp add: submit_def Let_def)
  have frame: "current_idx ?s1 = current_idx s" "chat_history ?s1 = chat_history s"
    "get_user_history_file ?s1 = get_user_history_file s"
    using idle ne by (simp_all add: submit_def Let_def get_user_history_file_def)
  have turn: "can_write fs s \<and> index_in_range s \<longrightarrow>
          (\<exists>fs' s'.
             stream_turn json_dump selected_model now (map Yield chunks) (fs, ?s1) = Inr (fs', s')
           \<and> session_state.messages s' = session_state.messages ?s1 @
                 [\<lparr>role = ''assistant'',
                   content = render_markdown_with_code (concat (map delta chunks)),
                   formatted = Some True\<rparr>]
           \<and> (current_idx s = None \<longrightarrow>
                 chat_history s' = chat_history s @
                   [\<lparr>name = (let fu = first_user (session_state.messages s')
                               in if length fu > 30 then take 30 fu @ ''...'' else fu),
                     chat_obj.messages = session_state.messages s',
                     timestamp = now, chat_obj.model = selected_model\<rparr>]
               \<and> current_idx s' = Some (length (chat_history s))
               \<and> (session_state.messages s = [] \<longrightarrow>
                    first_user (session_state.messages s') =
                      content (hd (session_state.messages ?s1))))
           \<and> (\<forall>i. current_idx s = Some i \<longrightarrow>
                 chat_history s' = (chat_history s)
                   [i := (chat_history s ! i)
                           \<lparr>chat_obj.messages := session_state.messages s',
                            timestamp := now, chat_obj.model := selected_model\<rparr>]
               \<and> current_idx s' = Some i)
           \<and> map_option data (fs' (get_user_history_file s)) = Some (json_dump (chat_history s'))
           \<and> to_stream s' = None \<and> \<not> stop_requested s')"
  proof
    assume a: "can_write fs s \<and> index_in_range s"
    have cw: "can_write fs ?s1" using a frame by (simp add: can_write_def)
    have ir: "index_in_range ?s1"
      using a frame by (auto simp: index_in_range_def split: option.splits)
    have lp: "fst (stream_loop False [] (map Yield chunks)) = concat (map delta chunks)"
      using stream_loop_yields [of "[]" chunks "[]"] by simp
    have t: "stream_turn json_dump selected_model now (map Yield chunks) (fs, ?s1)
       = finalize json_dump selected_model now (concat (map delta chunks)) (fs, ?s1)"
      using q st lp by (simp add: stream_turn_def)
    from finalize_result [OF cw ir, of json_dump selected_model now "concat (map delta chunks)"]
    obtain fs1 s2 where
      r: "finalize json_dump selected_model now (concat (map delta chunks)) (fs, ?s1) = Inr (fs1, s2)"
      and ms: "session_state.messages s2 = session_state.messages ?s1 @
           [\<lparr>role = ''assistant'', content = render_markdown_with_code (concat (map delta chunks)),
             formatted = Some True\<rparr>]"
      and nw: "current_idx ?s1 = None \<longrightarrow>
           chat_history s2 = chat_history ?s1 @
             [\<lparr>name = title_of (first_user (session_state.messages s2)),
               chat_obj.messages = session_state.messages s2,
               timestamp = now, chat_obj.model = selected_model\<rparr>]
         \<and> current_idx s2 = Some (length (chat_history ?s1))"
      and ex: "\<forall>i. current_idx ?s1 = Some i \<longrightarrow>
           chat_history s2 = (chat_history ?s1)
             [i := (chat_history ?s1 ! i)\<lparr>chat_obj.messages := session_state.messages s2,
                                        timestamp := now, chat_obj.model := selected_model\<rparr>]
         \<and> current_idx s2 = Some i"
      and pe: "map_option data (fs1 (get_user_history_file ?s1)) = Some (json_dump (chat_history s2))"
      and ts: "to_stream s2 = None" and sr: "\<not> stop_requested s2"
      by (elim exE conjE) (rule that)
    have fu: "session_state.messages s = [] \<longrightarrow>
        first_user (session_state.messages s2) = content (hd (session_state.messages ?s1))"
      using ms m by (simp add: first_user_def)
    show "\<exists>fs' s'.
             stream_turn json_dump selected_model now (map Yield chunks) (fs, ?s1) = Inr (fs', s')
           \<and> session_state.messages s' = session_state.messages ?s1 @
                 [\<lparr>role = ''assistant'',
                   content = render_markdown_with_code (concat (map delta chunks)),
                   formatted = Some True\<rparr>]
           \<and> (current_idx s = None \<longrightarrow>
                 chat_history s' = chat_history s @
                   [\<lparr>name = (let fu = first_user (session_state.messages s')
                               in if length fu > 30 then take 30 fu @ ''...'' else fu),
                     chat_obj.messages = session_state.messages s',
                     timestamp = now, chat_obj.model = selected_model\<rparr>]
               \<and> current_idx s' = Some (length (chat_history s))
               \<and> (session_state.messages s = [] \<longrightarrow>
                    first_user (session_state.messages s') =
                      content (hd (session_state.messages ?s1))))
           \<and> (\<forall>i. current_idx s = Some i \<longrightarrow>
                 chat_history s' = (chat_history s)
                   [i := (chat_history s ! i)
                           \<lparr>chat_obj.messages := session_state.messages s',
                            timestamp := now, chat_obj.model := selected_model\<rparr>]
               \<and> current_idx s' = Some i)
           \<and> map_option data (fs' (get_user_history_file s)) = Some (json_dump (chat_history s'))
           \<and> to_stream s' = None \<and> \<not> stop_requested s'"
      apply (rule exI [of _ fs1])
      apply (rule exI [of _ s2])
      using t r ms nw ex pe ts sr fu frame
      apply (simp add: title_of_def Let_def)
      done
  qed
  show ?thesis using m f q st turn by simp
qed

section \<open>Concrete instances\<close>

lemma render_plain_examples:
  "render_markdown_with_code ''Hello'' = ''Hello''"
  "render_markdown_with_code ''He'' = ''He''"
  "render_markdown_with_code ''Bye'' = ''Bye''"
  "render_markdown_with_code ''**Error:** boom'' = ''**Error:** boom''"
  by (simp_all add: render_markdown_with_code_def scan_lines_def fence_step_def fence_init_def
      startswith_fence_def fence_def nl_def)

lemma example_submitted:
  "to_stream (submit ''m'' ''hi'' (init_session ''u'' [])) =
     Some \<lparr>request.model = ''m'', request.messages =
        [\<lparr>role = ''system'', content = ''You are a helpful AI assistant.'', formatted = None\<rparr>,
         \<lparr>role = ''user'', content = ''hi'', formatted = None\<rparr>]\<rparr>"
  "\<not> stop_requested (submit ''m'' ''hi'' (init_session ''u'' []))"
  "can_write Map.empty (submit ''m'' ''hi'' (init_session ''u'' []))"
  "index_in_range (submit ''m'' ''hi'' (init_session ''u'' []))"
  "session_state.messages (submit ''m'' ''hi'' (init_session ''u'' [])) =
     [\<lparr>role = ''user'', content = ''hi'', formatted = None\<rparr>]"
  "get_user_history_file (submit ''m'' ''hi'' (init_session ''u'' [])) = ''chat_histories/u.json''"
  "current_idx (submit ''m'' ''hi'' (init_session ''u'' [])) = None"
  by (simp_all add: submit_def init_session_def with_file_context_def Let_def can_write_def
      index_in_range_def get_user_history_file_def HISTORY_DIR_def)

lemma example_resubmitted:
  "to_stream (submit ''m'' ''more'' example_loaded) =
     Some \<lparr>request.model = ''m'', request.messages =
        [\<lparr>role = ''system'', content = ''You are a helpful AI assistant.'', formatted = None\<rparr>,
         \<lparr>role = ''user'', content = ''hi'', formatted = None\<rparr>,
         \<lparr>role = ''assistant'', content = ''Hello'', formatted = Some True\<rparr>,
         \<lparr>role = ''user'', content = ''more'', formatted = None\<rparr>]\<rparr>"
  "current_idx (submit ''m'' ''more'' example_loaded) = Some 0"
  "can_write Map.empty (submit ''m'' ''more'' example_loaded)"
  "chat_history (submit ''m'' ''more'' example_loaded) = [example_record]"
  by (simp_all add: submit_def init_session_def with_file_context_def Let_def can_write_def)

theorem submit_then_turn_witness:
  "to_stream ((init_session ''u'' [])\<lparr>system_prompt := ''be terse''\<rparr>) = None
   \<and> ''hi'' \<noteq> []
   \<and> file_text ((init_session ''u'' [])\<lparr>system_prompt := ''be terse''\<rparr>) \<noteq> Some []
   \<and> can_write Map.empty ((init_session ''u'' [])\<lparr>system_prompt := ''be terse''\<rparr>)
   \<and> index_in_range ((init_session ''u'' [])\<lparr>system_prompt := ''be terse''\<rparr>)
   \<and> to_stream (submit ''m'' ''hi'' ((init_session ''u'' [])\<lparr>system_prompt := ''be terse''\<rparr>)) =
        Some \<lparr>request.model = ''m'',
              request.messages = [\<lparr>role = ''system'', content = ''be terse'', formatted = None\<rparr>,
                                  \<lparr>role = ''user'', content = ''hi'', formatted = None\<rparr>]\<rparr>
   \<and> (\<exists>fs' s'. stream_turn example_dump ''m'' ''2025-01-01 10:00''
          [Yield (Some (Some ''He'')), Yield (Some (Some ''llo''))]
          (Map.empty, submit ''m'' ''hi'' ((init_session ''u'' [])\<lparr>system_prompt := ''be terse''\<rparr>))
          = Inr (fs', s')
        \<and> session_state.messages s' =
            [\<lparr>role = ''user'', content = ''hi'', formatted = None\<rparr>,
             \<lparr>role = ''assistant'', content = ''Hello'', formatted = Some True\<rparr>]
        \<and> chat_history s' =
            [\<lparr>name = ''hi'', chat_obj.messages = session_state.messages s',
              timestamp = ''2025-01-01 10:00'', chat_obj.model = ''m''\<rparr>]
        \<and> current_idx s' = Some 0)"
proof -
  let ?s = "(init_session ''u'' [])\<lparr>system_prompt := ''be terse''\<rparr>"
  let ?s1 = "submit ''m'' ''hi'' ?s"
  let ?ev = "[Yield (Some (Some ''He'')), Yield (Some (Some ''llo''))]"
  have s: "to_stream ?s = None" "''hi'' \<noteq> []" "file_text ?s \<noteq> Some []"
    "can_write Map.empty ?s" "index_in_range ?s" "file_text ?s = None"
    "session_state.messages ?s = []" "system_prompt ?s = ''be terse''" "chat_history ?s = []"
    "current_idx ?s = None"
    by (simp_all add: init_session_def can_write_def index_in_range_def)
  have ev: "map Yield [Some (Some ''He''), Some (Some ''llo'')] = ?ev" by simp
  have dl: "concat (map delta [Some (Some ''He''), Some (Some ''llo'')]) = ''Hello''" by simp
  note t = submit_then_turn [OF s(1) s(2) s(3), of "''m''" Map.empty example_dump
      "''2025-01-01 10:00''" "[Some (Some ''He''), Some (Some ''llo'')]", unfolded ev dl]
  have m1: "session_state.messages ?s1 = [\<lparr>role = ''user'', content = ''hi'', formatted = None\<rparr>]"
    using t s(6) s(7) by simp
  have q: "to_stream ?s1 = Some \<lparr>request.model = ''m'',
              request.messages = [\<lparr>role = ''system'', content = ''be terse'', formatted = None\<rparr>,
                                  \<lparr>role = ''user'', content = ''hi'', formatted = None\<rparr>]\<rparr>"
    using t s(8) m1 by simp
  have "\<exists>fs' s'. stream_turn example_dump ''m'' ''2025-01-01 10:00'' ?ev (Map.empty, ?s1) = Inr (fs', s')
      \<and> session_state.messages s' = session_state.messages ?s1 @
           [\<lparr>role = ''assistant'', content = render_markdown_with_code ''Hello'', formatted = Some True\<rparr>]
      \<and> (current_idx ?s = None \<longrightarrow>
            chat_history s' = chat_history ?s @
              [\<lparr>name = (let fu = first_user (session_state.messages s')
                          in if length fu > 30 then take 30 fu @ ''...'' else fu),
                chat_obj.messages = session_state.messages s',
                timestamp = ''2025-01-01 10:00'', chat_obj.model = ''m''\<rparr>]
          \<and> current_idx s' = Some (length (chat_history ?s))
          \<and> (session_state.messages ?s = [] \<longrightarrow>
               first_user (session_state.messages s') = content (hd (session_state.messages ?s1))))"
    using t s(4) s(5) by (elim conjE impE, simp, elim exE conjE, intro exI conjI) assumption+
  then obtain fs1 s2 where
    r: "stream_turn example_dump ''m'' ''2025-01-01 10:00'' ?ev (Map.empty, ?s1) = Inr (fs1, s2)"
    and m: "session_state.messages s2 = session_state.messages ?s1 @
           [\<lparr>role = ''assistant'', content = render_markdown_with_code ''Hello'', formatted = Some True\<rparr>]"
    and h: "current_idx ?s = None \<longrightarrow>
            chat_history s2 = chat_history ?s @
              [\<lparr>name = (let fu = first_user (session_state.messages s2)
                          in if length fu > 30 then take 30 fu @ ''...'' else fu),
                chat_obj.messages = session_state.messages s2,
                timestamp = ''2025-01-01 10:00'', chat_obj.model = ''m''\<rparr>]
          \<and> current_idx s2 = Some (length (chat_history ?s))
          \<and> (session_state.messages ?s = [] \<longrightarrow>
               first_user (session_state.messages s2) = content (hd (session_state.messages ?s1)))"
    by (elim exE conjE) (rule that)
  have m2: "session_state.messages s2 =
            [\<lparr>role = ''user'', content = ''hi'', formatted = None\<rparr>,
             \<lparr>role = ''assistant'', content = ''Hello'', formatted = Some True\<rparr>]"
    using m m1 render_plain_examples(1) by simp
  have fu: "first_user (session_state.messages s2) = ''hi''"
    by (simp add: m2 first_user_def)
  have h2: "chat_history s2 =
            [\<lparr>name = ''hi'', chat_obj.messages = session_state.messages s2,
              timestamp = ''2025-01-01 10:00'', chat_obj.model = ''m''\<rparr>]"
    using h s(9) s(10) fu by (simp add: Let_def)
  have c2: "current_idx s2 = Some 0" using h s(9) s(10) by simp
  show ?thesis
    apply (intro conjI)
          apply (rule s(1))
         apply (rule s(2))
        apply (rule s(3))
       apply (rule s(4))
      apply (rule s(5))
     apply (rule q)
    apply (rule exI [of _ fs1])
    apply (rule exI [of _ s2])
    apply (intro conjI)
       apply (rule r)
      apply (rule m2)
     apply (rule h2)
    apply (rule c2)
    done
qed

theorem stream_error_finalized_witness:
  "to_stream (submit ''m'' ''hi'' (init_session ''u'' [])) \<noteq> None
   \<and> \<not> stop_requested (submit ''m'' ''hi'' (init_session ''u'' []))
   \<and> can_write Map.empty (submit ''m'' ''hi'' (init_session ''u'' []))
   \<and> index_in_range (submit ''m'' ''hi'' (init_session ''u'' []))
   \<and> (\<exists>fs' s'. stream_turn example_dump ''m'' ''2025-01-01 10:00''
          [Yield (Some (Some ''He'')), Raise ''boom'', Yield (Some (Some ''llo''))]
          (Map.empty, submit ''m'' ''hi'' (init_session ''u'' [])) = Inr (fs', s')
        \<and> session_state.messages s' =
            [\<lparr>role = ''user'', content = ''hi'', formatted = None\<rparr>,
             \<lparr>role = ''assistant'', content = ''**Error:** boom'', formatted = Some True\<rparr>]
        \<and> chat_history s' =
            [\<lparr>name = ''hi'', chat_obj.messages = session_state.messages s',
              timestamp = ''2025-01-01 10:00'', chat_obj.model = ''m''\<rparr>]
        \<and> map_option data (fs' ''chat_histories/u.json'') = Some (example_dump (chat_history s'))
        \<and> to_stream s' = None)"
proof -
  let ?s = "submit ''m'' ''hi'' (init_session ''u'' [])"
  let ?ev = "[Yield (Some (Some ''He'')), Raise ''boom'', Yield (Some (Some ''llo''))]"
  note s = example_submitted
  have ev: "map Yield [Some (Some ''He'')] @ Raise ''boom'' #
      [Yield (Some (Some ''llo''))] = ?ev" by simp
  have ch: "chat_history ?s = []"
    by (simp add: submit_def init_session_def Let_def)
  note t = stream_error_finalized [of "[Some (Some ''He'')]" "''boom''"
      "[Yield (Some (Some ''llo''))]" ?s
      "\<lparr>request.model = ''m'', request.messages =
        [\<lparr>role = ''system'', content = ''You are a helpful AI assistant.'', formatted = None\<rparr>,
         \<lparr>role = ''user'', content = ''hi'', formatted = None\<rparr>]\<rparr>"
      example_dump "''m''" "''2025-01-01 10:00''" Map.empty, unfolded ev]
  have "\<exists>fs1 s1. stream_turn example_dump ''m'' ''2025-01-01 10:00'' ?ev (Map.empty, ?s) = Inr (fs1, s1)
      \<and> session_state.messages s1 = session_state.messages ?s @
        [\<lparr>role = ''assistant'', content = render_markdown_with_code (''**Error:** '' @ ''boom''),
          formatted = Some True\<rparr>]
      \<and> (current_idx ?s = None \<longrightarrow>
            chat_history s1 = chat_history ?s @
              [\<lparr>name = title_of (first_user (session_state.messages s1)),
                chat_obj.messages = session_state.messages s1,
                timestamp = ''2025-01-01 10:00'', chat_obj.model = ''m''\<rparr>]
          \<and> current_idx s1 = Some (length (chat_history ?s)))
      \<and> map_option data (fs1 (get_user_history_file ?s)) = Some (example_dump (chat_history s1))
      \<and> to_stream s1 = None"
    using t s(1,2,3,4) by (elim conjE impE, simp, simp, elim exE conjE, intro exI conjI) assumption+
  then obtain fs1 s1 where
    r: "stream_turn example_dump ''m'' ''2025-01-01 10:00'' ?ev (Map.empty, ?s) = Inr (fs1, s1)"
    and m: "session_state.messages s1 = session_state.messages ?s @
        [\<lparr>role = ''assistant'', content = render_markdown_with_code (''**Error:** '' @ ''boom''),
          formatted = Some True\<rparr>]"
    and h: "current_idx ?s = None \<longrightarrow>
            chat_history s1 = chat_history ?s @
              [\<lparr>name = title_of (first_user (session_state.messages s1)),
                chat_obj.messages = session_state.messages s1,
                timestamp = ''2025-01-01 10:00'', chat_obj.model = ''m''\<rparr>]
          \<and> current_idx s1 = Some (length (chat_history ?s))"
    and p: "map_option data (fs1 (get_user_history_file ?s)) = Some (example_dump (chat_history s1))"
    and q: "to_stream s1 = None"
    by (elim exE conjE) (rule that)
  have m': "session_state.messages s1 =
            [\<lparr>role = ''user'', content = ''hi'', formatted = None\<rparr>,
             \<lparr>role = ''assistant'', content = ''**Error:** boom'', formatted = Some True\<rparr>]"
    using m s(5) render_plain_examples(4) by simp
  have fu: "title_of (first_user (session_state.messages s1)) = ''hi''"
    by (simp add: m' first_user_def title_of_def)
  have h': "chat_history s1 =
            [\<lparr>name = ''hi'', chat_obj.messages = session_state.messages s1,
              timestamp = ''2025-01-01 10:00'', chat_obj.model = ''m''\<rparr>]"
    using h s(7) ch fu by simp
  have p': "map_option data (fs1 ''chat_histories/u.json'') = Some (example_dump (chat_history s1))"
    using p s(6) by simp
  have a: "to_stream ?s \<noteq> None" using s(1) by simp
  show ?thesis
    apply (intro conjI)
        apply (rule a)
       apply (rule s(2))
      apply (rule s(3))
     apply (rule s(4))
    apply (rule exI [of _ fs1])
    apply (rule exI [of _ s1])
    apply (intro conjI)
        apply (rule r)
       apply (rule m')
      apply (rule h')
     apply (rule p')
    apply (rule q)
    done
qed


text \<open>
  The bytes that \<open>save_history\<close> writes for a history of one conversation.
\<close>

lemma py_json_dump_example:
  "py_json_dump
     [\<lparr>name = ''hi'',
       chat_obj.messages = [\<lparr>role = ''user'', content = ''caf'' @ [CHR 0xE9], formatted = None\<rparr>,
                            \<lparr>role = ''assistant'', content = ''ok'', formatted = Some True\<rparr>],
       timestamp = ''2025-01-01 10:00'', chat_obj.model = ''m''\<rparr>]
   = join_nl
       [''['',
        ''  {'',
        ''    \"name\": \"hi\",'',
        ''    \"messages\": ['',
        ''      {'',
        ''        \"role\": \"user\",'',
        ''        \"content\": \"caf'' @ [CHR 0xC3, CHR 0xA9] @ ''\"'',
        ''      },'',
        ''      {'',
        ''        \"role\": \"assistant\",'',
        ''        \"content\": \"ok\",'',
        ''        \"formatted\": true'',
        ''      }'',
        ''    ],'',
        ''    \"timestamp\": \"2025-01-01 10:00\",'',
        ''    \"model\": \"m\"'',
        ''  }'',
        '']'']"
  by code_simp



theorem existing_record_updated_in_place_witness:
  "to_stream (submit ''m'' ''more'' example_loaded) \<noteq> None
   \<and> current_idx (submit ''m'' ''more'' example_loaded) = Some 0
   \<and> can_write Map.empty (submit ''m'' ''more'' example_loaded)
   \<and> (\<exists>fs' s'. stream_turn example_dump ''m2'' ''2025-01-02 11:30'' [Yield (Some (Some ''Bye''))]
          (Map.empty, submit ''m'' ''more'' example_loaded) = Inr (fs', s')
        \<and> length (chat_history s') = 1
        \<and> name (chat_history s' ! 0) = ''hi''
        \<and> timestamp (chat_history s' ! 0) = ''2025-01-02 11:30''
        \<and> chat_obj.model (chat_history s' ! 0) = ''m2''
        \<and> chat_obj.messages (chat_history s' ! 0) = session_state.messages s'
        \<and> current_idx s' = Some 0)"
proof -
  let ?s = "submit ''m'' ''more'' example_loaded"
  let ?ev = "[Yield (Some (Some ''Bye''))]"
  note s = example_resubmitted
  note t = existing_record_updated_in_place [OF s(1) s(2), of example_dump "''m2''"
      "''2025-01-02 11:30''" ?ev Map.empty]
  have "\<exists>fs1 s1. stream_turn example_dump ''m2'' ''2025-01-02 11:30'' ?ev (Map.empty, ?s)
      = Inr (fs1, s1)"
    using t [of Map.empty ?s] s(3) s(4) by simp
  then obtain fs1 s1 where
    r: "stream_turn example_dump ''m2'' ''2025-01-02 11:30'' ?ev (Map.empty, ?s) = Inr (fs1, s1)"
    by (elim exE) (rule that)
  from t [of fs1 s1] r have
    l: "length (chat_history s1) = length (chat_history ?s)"
    and n: "name (chat_history s1 ! 0) = name (chat_history ?s ! 0)"
    and ti: "timestamp (chat_history s1 ! 0) = ''2025-01-02 11:30''"
    and mo: "chat_obj.model (chat_history s1 ! 0) = ''m2''"
    and me: "chat_obj.messages (chat_history s1 ! 0) = session_state.messages s1"
    and ci: "current_idx s1 = Some 0"
    by simp_all
  have l': "length (chat_history s1) = 1" using l s(4) by simp
  have n': "name (chat_history s1 ! 0) = ''hi''" using n s(4) by simp
  have a: "to_stream ?s \<noteq> None" using s(1) by simp
  show ?thesis
    apply (intro conjI)
       apply (rule a)
      apply (rule s(2))
     apply (rule s(3))
    apply (rule exI [of _ fs1])
    apply (rule exI [of _ s1])
    apply (intro conjI)
          apply (rule r)
         apply (rule l')
        apply (rule n')
       apply (rule ti)
      apply (rule mo)
     apply (rule me)
    apply (rule ci)
    done
qed

theorem delete_resets_only_current_witness:
  "(0::nat) < length (chat_history
        ((init_session ''u'' [example_record, example_record\<lparr>name := ''b''\<rparr>,
                              example_record\<lparr>name := ''c''\<rparr>])\<lparr>current_idx := Some 1\<rparr>))
   \<and> can_write Map.empty
        ((init_session ''u'' [example_record, example_record\<lparr>name := ''b''\<rparr>,
                              example_record\<lparr>name := ''c''\<rparr>])\<lparr>current_idx := Some 1\<rparr>)
   \<and> (\<exists>fs' s'. delete_chat example_dump 0
          (Map.empty,
           (init_session ''u'' [example_record, example_record\<lparr>name := ''b''\<rparr>,
                                example_record\<lparr>name := ''c''\<rparr>])\<lparr>current_idx := Some 1\<rparr>)
          = Inr (fs', s')
        \<and> chat_history s' = [example_record\<lparr>name := ''b''\<rparr>, example_record\<lparr>name := ''c''\<rparr>]
        \<and> current_idx s' = Some 1
        \<and> name (chat_history s' ! 1) = ''c''
        \<and> map_option data (fs' ''chat_histories/u.json'') = Some ''bc'')"
proof -
  let ?s = "(init_session ''u'' [example_record, example_record\<lparr>name := ''b''\<rparr>,
                                example_record\<lparr>name := ''c''\<rparr>])\<lparr>current_idx := Some 1\<rparr>"
  have s: "(0::nat) < length (chat_history ?s)" "can_write Map.empty ?s"
     "get_user_history_file ?s = ''chat_histories/u.json''"
     "current_idx ?s = Some 1"
     "chat_history ?s = [example_record, example_record\<lparr>name := ''b''\<rparr>,
                         example_record\<lparr>name := ''c''\<rparr>]"
    by (simp_all add: init_session_def can_write_def get_user_history_file_def HISTORY_DIR_def)
  from delete_resets_only_current [OF s(1) s(2), of example_dump]
  have "\<exists>fs1 s1. delete_chat example_dump 0 (Map.empty, ?s) = Inr (fs1, s1)
    \<and> chat_history s1 = take 0 (chat_history ?s) @ drop (Suc 0) (chat_history ?s)
    \<and> map_option data (fs1 (get_user_history_file ?s)) = Some (example_dump (chat_history s1))
    \<and> (current_idx ?s \<noteq> Some 0 \<longrightarrow> session_state.messages s1 = session_state.messages ?s
          \<and> current_idx s1 = current_idx ?s)"
    by (elim exE conjE, intro exI conjI) assumption+
  then obtain fs1 s1 where r: "delete_chat example_dump 0 (Map.empty, ?s) = Inr (fs1, s1)"
    and h: "chat_history s1 = take 0 (chat_history ?s) @ drop (Suc 0) (chat_history ?s)"
    and p: "map_option data (fs1 (get_user_history_file ?s)) = Some (example_dump (chat_history s1))"
    and c: "current_idx ?s \<noteq> Some 0 \<longrightarrow> session_state.messages s1 = session_state.messages ?s
          \<and> current_idx s1 = current_idx ?s"
    by (elim exE conjE) (rule that)
  have h': "chat_history s1 = [example_record\<lparr>name := ''b''\<rparr>, example_record\<lparr>name := ''c''\<rparr>]"
    using h s(5) by simp
  have c': "current_idx s1 = Some 1" using c s(4) by simp
  have n: "name (chat_history s1 ! 1) = ''c''" using h' by simp
  have p': "map_option data (fs1 ''chat_histories/u.json'') = Some ''bc''"
    using p h' s(3) by simp
  show ?thesis
    apply (intro conjI)
      apply (rule s(1))
     apply (rule s(2))
    apply (rule exI [of _ fs1])
    apply (rule exI [of _ s1])
    apply (intro conjI)
        apply (rule r)
       apply (rule h')
      apply (rule c')
     apply (rule n)
    apply (rule p')
    done
qed

end
